theory Spec2Isabelle
  imports Complex_Main "HOL-Library.Word"
begin

section \<open>Values of the Go runtime and standard library\<close>

text \<open>
  The repository holds two drafts of one package: \<^verbatim>\<open>compress.go\<close> (handler
  \<^verbatim>\<open>CompressedHandler\<close>, codings kept in a \<^verbatim>\<open>map[string]float64\<close>) and
  a second, unnamed file (handler \<^verbatim>\<open>Handle\<close>, codings kept in a struct of three
  floats). Functions that exist in both drafts keep their name for
  \<^verbatim>\<open>compress.go\<close> and carry the suffix \<open>_p0\<close> for the second draft.
\<close>

subsection \<open>float64\<close>

text \<open>
  A \<^verbatim>\<open>float64\<close> is NaN, an infinity or a finite number. \<open>F64 r\<close> is the finite
  value \<open>r\<close>; the two zeros of binary64 are both \<open>F64 0\<close>, which no comparison tells
  apart. The code only ever compares weights against the constants 0.0 and 1.0. Every
  ordered comparison with NaN is false, as IEEE 754 and Go have it.
\<close>

datatype float64 = NaN | NegInf | PosInf | F64 real

fun f64_less :: "float64 \<Rightarrow> float64 \<Rightarrow> bool" where
  "f64_less NaN _ = False"
| "f64_less _ NaN = False"
| "f64_less NegInf NegInf = False"
| "f64_less NegInf _ = True"
| "f64_less PosInf _ = False"
| "f64_less (F64 x) NegInf = False"
| "f64_less (F64 x) PosInf = True"
| "f64_less (F64 x) (F64 y) = (x < y)"

text \<open>\<open>a > b\<close> of the source is \<open>f64_less b a\<close>.\<close>

definition f64_greater :: "float64 \<Rightarrow> float64 \<Rightarrow> bool" where
  "f64_greater a b = f64_less b a"

text \<open>Membership in the closed interval [0.0, 1.0].\<close>

fun in_unit_interval :: "float64 \<Rightarrow> bool" where
  "in_unit_interval (F64 x) = (0 \<le> x \<and> x \<le> 1)"
| "in_unit_interval _ = False"

subsection \<open>Errors\<close>

text \<open>
  \<open>ErrSyntax\<close> and \<open>ErrRange\<close> are the two errors of \<^verbatim>\<open>strconv.ParseFloat\<close>.
  \<^verbatim>\<open>ErrEmptyContentCoding\<close> is used by \<^verbatim>\<open>compress.go\<close> but declared in a file
  that is not part of the sources at hand; it is an error value like the others.
  \<open>ErrOther\<close> stands for any other error value.
\<close>

datatype error = ErrSyntax | ErrRange | ErrEmptyContentCoding | ErrUnHijackable | ErrOther nat

subsection \<open>strings\<close>

text \<open>
  A Go string is a sequence of bytes, here a \<open>char list\<close>. \<^verbatim>\<open>strings.Split\<close> with
  a one-byte separator, \<^verbatim>\<open>strings.HasPrefix\<close> and \<^verbatim>\<open>strings.TrimPrefix\<close> work on
  bytes and are modelled in full. \<open>Split\<close> never returns the empty list: the empty
  string splits into one empty piece.
\<close>

fun Split :: "string \<Rightarrow> char \<Rightarrow> string list" where
  "Split [] sep = [[]]"
| "Split (x # xs) sep =
     (if x = sep then [] # Split xs sep
      else (case Split xs sep of [] \<Rightarrow> [[x]] | p # ps \<Rightarrow> (x # p) # ps))"

definition HasPrefix :: "string \<Rightarrow> string \<Rightarrow> bool" where
  "HasPrefix s p = (take (length p) s = p)"

definition TrimPrefix :: "string \<Rightarrow> string \<Rightarrow> string" where
  "TrimPrefix s p = (if HasPrefix s p then drop (length p) s else s)"

text \<open>
  \<^verbatim>\<open>strings.TrimSpace\<close>, \<^verbatim>\<open>strings.ToLower\<close> and \<^verbatim>\<open>strconv.ParseFloat\<close> depend on
  Unicode tables and on binary64 rounding. The package's functions take them as a
  parameter, so that every general theorem below holds whatever these three library
  functions compute. \<open>ParseFloat\<close> returns the value together with the error
  (\<open>None\<close> is \<^verbatim>\<open>nil\<close>).
\<close>

record stdlib =
  TrimSpace :: "string \<Rightarrow> string"
  ToLower :: "string \<Rightarrow> string"
  ParseFloat :: "string \<Rightarrow> float64 \<times> error option"

subsection \<open>The library on ASCII input\<close>

text \<open>
  For evaluation on concrete headers the three functions are given as they act on
  ASCII strings. \<open>ascii_TrimSpace\<close> removes leading and trailing tab, line feed,
  vertical tab, form feed, carriage return and space; \<open>ascii_ToLower\<close> maps A-Z to
  a-z.
\<close>

definition is_space :: "char \<Rightarrow> bool" where
  "is_space c = (c = CHR 0x09 \<or> c = CHR 0x0A \<or> c = CHR 0x0B \<or> c = CHR 0x0C
                 \<or> c = CHR 0x0D \<or> c = CHR '' '')"

definition ascii_TrimSpace :: "string \<Rightarrow> string" where
  "ascii_TrimSpace s = rev (dropWhile is_space (rev (dropWhile is_space s)))"

definition lower_char :: "char \<Rightarrow> char" where
  "lower_char c =
     (let n = (of_char c :: nat) in if 65 \<le> n \<and> n \<le> 90 then char_of (n + 32) else c)"

definition ascii_ToLower :: "string \<Rightarrow> string" where
  "ascii_ToLower s = map lower_char s"

text \<open>
  \<open>atof\<close> follows \<^verbatim>\<open>strconv.ParseFloat(s, 64)\<close>. It accepts the special names
  (\<^verbatim>\<open>inf\<close>, \<^verbatim>\<open>infinity\<close> with an optional sign, \<^verbatim>\<open>nan\<close> without one, in any
  letter case), decimal numbers \<^verbatim>\<open>[+-] digits [. digits] [e [+-] digits]\<close> and
  hexadecimal numbers \<^verbatim>\<open>[+-] 0x hexdigits [. hexdigits] p [+-] digits\<close>, with at least
  one mantissa digit; the letters \<^verbatim>\<open>x\<close>, \<^verbatim>\<open>e\<close> and \<^verbatim>\<open>p\<close> may be capitals, and
  the exponent of a hexadecimal number is a power of two and is required. An underscore
  may stand between two digits, or between the prefix \<^verbatim>\<open>0x\<close> and a digit. A string
  outside this grammar gives 0 and a syntax error.
\<close>

definition is_digit :: "char \<Rightarrow> bool" where
  "is_digit c = (let n = (of_char c :: int) in 48 \<le> n \<and> n \<le> 57)"

definition is_hex_letter :: "char \<Rightarrow> bool" where
  "is_hex_letter c =
     (let n = (of_char c :: int) in (65 \<le> n \<and> n \<le> 70) \<or> (97 \<le> n \<and> n \<le> 102))"

text \<open>The value of a digit: 0-9, and A-F or a-f for 10 to 15.\<close>

definition digit_val :: "char \<Rightarrow> int" where
  "digit_val c =
     (let n = (of_char c :: int)
      in if n \<le> 57 then n - 48 else if n \<le> 70 then n - 55 else n - 87)"

definition digits_val :: "int \<Rightarrow> string \<Rightarrow> int" where
  "digits_val base ds = foldl (\<lambda>a c. base * a + digit_val c) 0 ds"

text \<open>
  The exponent is accumulated only while it is below 10000, as the library does;
  underscores among its digits are passed over.
\<close>

definition exp_val :: "string \<Rightarrow> int" where
  "exp_val ds =
     foldl (\<lambda>e c. if c = CHR ''_'' then e else if e < 10000 then e * 10 + digit_val c else e) 0 ds"

definition special :: "string \<Rightarrow> float64 option" where
  "special s =
     (let t = ascii_ToLower s in
      if t = ''inf'' \<or> t = ''infinity'' \<or> t = ''+inf'' \<or> t = ''+infinity'' then Some PosInf
      else if t = ''-inf'' \<or> t = ''-infinity'' then Some NegInf
      else if t = ''nan'' then Some NaN
      else None)"

text \<open>
  The mantissa loop of \<^verbatim>\<open>readFloat\<close>: it passes over underscores, takes the first
  point it meets and stops at the second, and collects digits (hexadecimal letters too
  when the number is hexadecimal). The result is the digits before the point, the digits
  after it, and the part of the string that the loop did not read.
\<close>

fun readMantissa :: "bool \<Rightarrow> bool \<Rightarrow> string \<Rightarrow> string \<times> string \<times> string" where
  "readMantissa hex sawdot [] = ([], [], [])"
| "readMantissa hex sawdot (c # cs) =
     (if c = CHR ''_'' then readMantissa hex sawdot cs
      else if c = CHR ''.'' \<and> \<not> sawdot then readMantissa hex True cs
      else if is_digit c \<or> (hex \<and> is_hex_letter c) then
        (case readMantissa hex sawdot cs of
           (ip, fp, rest) \<Rightarrow> if sawdot then (ip, c # fp, rest) else (c # ip, fp, rest))
      else ([], [], c # cs))"

text \<open>
  The exponent part: the exponent letter, an optional sign, a digit, then digits and
  underscores. Without the exponent letter a decimal number has exponent 0 and a
  hexadecimal one is a syntax error (\<open>None\<close>). The second component is what follows.
\<close>

definition readExponent :: "bool \<Rightarrow> string \<Rightarrow> (int \<times> string) option" where
  "readExponent hex s =
     (if take 1 s = (if hex then ''p'' else ''e'') \<or> take 1 s = (if hex then ''P'' else ''E'') then
        (let s1 = drop 1 s;
             esign = (if take 1 s1 = ''-'' then - 1 else 1);
             s2 = (if take 1 s1 = ''+'' \<or> take 1 s1 = ''-'' then drop 1 s1 else s1);
             in_exp = (\<lambda>c. is_digit c \<or> c = CHR ''_'')
         in if s2 = [] \<or> \<not> is_digit (hd s2) then None
            else Some (esign * exp_val (takeWhile in_exp s2), dropWhile in_exp s2))
      else if hex then None
      else Some (0, s))"

text \<open>
  \<^verbatim>\<open>underscoreOK\<close>: an underscore must follow a digit or a base prefix and must be
  followed by a digit. \<open>saw\<close> is the kind of the last character: \<^verbatim>\<open>^\<close> at the start,
  \<^verbatim>\<open>0\<close> for a digit or a base prefix, \<^verbatim>\<open>_\<close> for an underscore, \<^verbatim>\<open>!\<close> for
  anything else.
\<close>

fun underscoreOK_loop :: "bool \<Rightarrow> char \<Rightarrow> string \<Rightarrow> bool" where
  "underscoreOK_loop hex saw [] = (saw \<noteq> CHR ''_'')"
| "underscoreOK_loop hex saw (c # cs) =
     (if is_digit c \<or> (hex \<and> is_hex_letter c) then underscoreOK_loop hex (CHR ''0'') cs
      else if c = CHR ''_'' then (saw = CHR ''0'' \<and> underscoreOK_loop hex (CHR ''_'') cs)
      else if saw = CHR ''_'' then False
      else underscoreOK_loop hex (CHR ''!'') cs)"

definition underscoreOK :: "string \<Rightarrow> bool" where
  "underscoreOK s =
     (let s1 = (if take 1 s = ''-'' \<or> take 1 s = ''+'' then drop 1 s else s);
          p = take 1 (drop 1 s1);
          hex = (take 1 s1 = ''0'' \<and> (p = ''x'' \<or> p = ''X''));
          pre = (take 1 s1 = ''0'' \<and> (p = ''b'' \<or> p = ''B'' \<or> p = ''o'' \<or> p = ''O'' \<or> hex))
      in if pre then underscoreOK_loop hex (CHR ''0'') (drop 2 s1)
         else underscoreOK_loop hex (CHR ''^'') s1)"

text \<open>
  \<open>readFloat\<close> returns the sign and the number read as a fraction \<open>n / d\<close> of two
  integers, \<open>0 \<le> n\<close> and \<open>0 < d\<close>, or \<open>None\<close> on a syntax error. The whole string has to
  be read. A number is hexadecimal when \<^verbatim>\<open>0x\<close> and at least one more character follow
  the sign.
\<close>

definition readFloat :: "string \<Rightarrow> (bool \<times> int \<times> int) option" where
  "readFloat s =
     (let neg = (take 1 s = ''-'');
          s1 = (if take 1 s = ''+'' \<or> take 1 s = ''-'' then drop 1 s else s);
          hex = (2 < length s1 \<and> take 1 s1 = ''0''
                 \<and> (take 1 (drop 1 s1) = ''x'' \<or> take 1 (drop 1 s1) = ''X''))
      in case readMantissa hex False (if hex then drop 2 s1 else s1) of
           (ip, fp, s2) \<Rightarrow>
             if ip = [] \<and> fp = [] then None
             else
               (case readExponent hex s2 of
                  None \<Rightarrow> None
                | Some (e, s3) \<Rightarrow>
                    if s3 \<noteq> [] then None
                    else if CHR ''_'' \<in> set s \<and> \<not> underscoreOK s then None
                    else if hex
                    then (let k = e - 4 * int (length fp); m = digits_val 16 (ip @ fp)
                          in Some (neg, if 0 \<le> k then m * 2 ^ nat k else m,
                                        if 0 \<le> k then 1 else 2 ^ nat (- k)))
                    else (let k = e - int (length fp); m = digits_val 10 (ip @ fp)
                          in Some (neg, if 0 \<le> k then m * 10 ^ nat k else m,
                                        if 0 \<le> k then 1 else 10 ^ nat (- k)))))"

text \<open>
  Rounding to binary64. \<open>ilog2 n\<close> is the position of the highest bit of \<open>n\<close>. For a
  fraction \<open>n / d\<close> with \<open>2 ^ e \<le> n / d < 2 ^ (e + 1)\<close> the unit in the last place is
  \<open>2 ^ p\<close> with \<open>p = e - 52\<close>, and \<open>p = - 1074\<close> for the subnormal numbers; the result is
  the multiple \<open>m * 2 ^ p\<close> nearest to \<open>n / d\<close>, the one with even \<open>m\<close> when two are
  equally near. \<open>None\<close> stands for a result of \<open>2 ^ 1024\<close> or more, which binary64
  does not hold.
\<close>

function ilog2 :: "int \<Rightarrow> int" where
  "ilog2 n = (if n \<le> 1 then 0 else 1 + ilog2 (n div 2))"
  by pat_completeness auto
termination by (relation "measure nat") auto

declare ilog2.simps [simp del]

definition round64 :: "int \<Rightarrow> int \<Rightarrow> real option" where
  "round64 n d =
     (if n = 0 then Some 0 else
      let k = ilog2 n - ilog2 d;
          e = (if (if 0 \<le> k then d * 2 ^ nat k \<le> n else d \<le> n * 2 ^ nat (- k)) then k else k - 1);
          p = max (e - 52) (- 1074);
          N = (if 0 \<le> p then n else n * 2 ^ nat (- p));
          D = (if 0 \<le> p then d * 2 ^ nat p else d);
          q = N div D;
          r = N mod D;
          m = (if D < 2 * r \<or> (2 * r = D \<and> odd q) then q + 1 else q)
      in if 0 \<le> p \<and> 2 ^ 1024 \<le> m * 2 ^ nat p then None
         else Some (if 0 \<le> p then real_of_int (m * 2 ^ nat p)
                    else real_of_int m / real_of_int (2 ^ nat (- p))))"

text \<open>
  A number that rounds to \<open>2 ^ 1024\<close> or more gives the infinity of its sign and a range
  error; a number that rounds to zero gives zero and no error.
\<close>

definition atof :: "string \<Rightarrow> float64 \<times> error option" where
  "atof s =
     (case special s of
        Some v \<Rightarrow> (v, None)
      | None \<Rightarrow>
         (case readFloat s of
            None \<Rightarrow> (F64 0, Some ErrSyntax)
          | Some (neg, n, d) \<Rightarrow>
             (case round64 n d of
                None \<Rightarrow> ((if neg then NegInf else PosInf), Some ErrRange)
              | Some x \<Rightarrow> (F64 (if neg then - x else x), None))))"

definition go_ascii :: stdlib where
  "go_ascii = \<lparr>TrimSpace = ascii_TrimSpace, ToLower = ascii_ToLower, ParseFloat = atof\<rparr>"


section \<open>Content-coding negotiation\<close>

text \<open>\<^verbatim>\<open>const DefaultQValue = 1.0\<close>, in both drafts.\<close>

definition DefaultQValue :: float64 where
  "DefaultQValue = F64 1"

text \<open>
  The clamp both drafts apply to the result of \<^verbatim>\<open>ParseFloat\<close>:
  \<^verbatim>\<open>if qvalue < 0.0 { qvalue = 0.0 } else if qvalue > 1.0 { qvalue = 1.0 }\<close>.
\<close>

definition clamp_qvalue :: "float64 \<Rightarrow> float64" where
  "clamp_qvalue q =
     (if f64_less q (F64 0) then F64 0
      else if f64_greater q (F64 1) then F64 1
      else q)"

subsection \<open>\<^verbatim>\<open>compress.go\<close>\<close>

text \<open>
  \<^verbatim>\<open>parseCoding\<close> ranges over the pieces of \<^verbatim>\<open>strings.Split(s, ";")\<close> with their
  index \<open>n\<close>. The named results \<open>coding\<close>, \<open>qvalue\<close> and \<open>err\<close> are the loop's state;
  they start as the empty string, 0 and \<^verbatim>\<open>nil\<close>. The assignment
  \<^verbatim>\<open>qvalue = DefaultQValue\<close> is inside the loop body and runs for every piece.
\<close>

fun parseCoding_loop ::
  "stdlib \<Rightarrow> nat \<Rightarrow> string list \<Rightarrow> string \<times> float64 \<times> error option
     \<Rightarrow> string \<times> float64 \<times> error option" where
  "parseCoding_loop L n [] st = st"
| "parseCoding_loop L n (part # rest) (coding, qvalue, err) =
     (let part = TrimSpace L part;
          qvalue = DefaultQValue
      in if n = 0 then parseCoding_loop L (Suc n) rest (ToLower L part, qvalue, err)
         else if HasPrefix part ''q='' then
           (case ParseFloat L (TrimPrefix part ''q='') of
              (qvalue, err) \<Rightarrow> parseCoding_loop L (Suc n) rest (coding, clamp_qvalue qvalue, err))
         else parseCoding_loop L (Suc n) rest (coding, qvalue, err))"

definition parseCoding :: "stdlib \<Rightarrow> string \<Rightarrow> string \<times> float64 \<times> error option" where
  "parseCoding L s =
     (case parseCoding_loop L 0 (Split s CHR '';'') ([], F64 0, None) of
        (coding, qvalue, err) \<Rightarrow>
          (coding, qvalue, if coding = [] then Some ErrEmptyContentCoding else err))"

text \<open>
  \<^verbatim>\<open>type codings map[string]float64\<close>. Reading a key that is absent gives the zero
  value 0.0. \<^verbatim>\<open>KeyError{ss, err}\<close> is a pair and \<^verbatim>\<open>ErrorList\<close> a list of them
  (both are declared outside the sources at hand).
\<close>

type_synonym codings = "string \<rightharpoonup> float64"

type_synonym KeyError = "string \<times> error"

definition weight :: "codings \<Rightarrow> string \<Rightarrow> float64" where
  "weight c k = (case c k of None \<Rightarrow> F64 0 | Some v \<Rightarrow> v)"

fun parseEncodings_loop ::
  "stdlib \<Rightarrow> string list \<Rightarrow> codings \<times> KeyError list \<Rightarrow> codings \<times> KeyError list" where
  "parseEncodings_loop L [] ce = ce"
| "parseEncodings_loop L (ss # rest) (c, e) =
     (case parseCoding L ss of
        (coding, qvalue, Some err) \<Rightarrow> parseEncodings_loop L rest (c, e @ [(ss, err)])
      | (coding, qvalue, None) \<Rightarrow> parseEncodings_loop L rest (c(coding \<mapsto> qvalue), e))"

definition parseEncodings :: "stdlib \<Rightarrow> string \<Rightarrow> codings \<times> KeyError list option" where
  "parseEncodings L s =
     (case parseEncodings_loop L (Split s CHR '','') (Map.empty, []) of
        (c, e) \<Rightarrow> (c, if length e > 0 then Some e else None))"

text \<open>
  \<^verbatim>\<open>type flateType uint8\<close> with the constants \<^verbatim>\<open>Identity\<close>, \<^verbatim>\<open>Deflate\<close>,
  \<^verbatim>\<open>Gzip\<close>.
\<close>

datatype flateType = Identity | Deflate | Gzip

text \<open>
  A request is its header: canonical field names mapped to the list of their values.
  \<^verbatim>\<open>Header.Get\<close> returns the first value of a field and the empty string when the
  field is absent.
\<close>

record Request =
  Header :: "string \<rightharpoonup> string list"

definition Header_Get :: "(string \<rightharpoonup> string list) \<Rightarrow> string \<Rightarrow> string" where
  "Header_Get h k = (case h k of None \<Rightarrow> [] | Some [] \<Rightarrow> [] | Some (v # _) \<Rightarrow> v)"

definition accepts :: "stdlib \<Rightarrow> Request \<Rightarrow> flateType" where
  "accepts L r =
     (case parseEncodings L (Header_Get (Header r) ''Accept-Encoding'') of
        (acceptedEncodings, _) \<Rightarrow>
          if f64_greater (weight acceptedEncodings ''identity'') (F64 0) then Identity
          else if f64_greater (weight acceptedEncodings ''gzip'') (F64 0) then Gzip
          else if f64_greater (weight acceptedEncodings ''deflate'') (F64 0) then Deflate
          else Identity)"

subsection \<open>The second draft\<close>

text \<open>
  \<^verbatim>\<open>parseCoding\<close> of the second draft has no error result: the error of
  \<^verbatim>\<open>ParseFloat\<close> is discarded (\<^verbatim>\<open>qvalue, _ = strconv.ParseFloat(...)\<close>).
\<close>

fun parseCoding_loop_p0 ::
  "stdlib \<Rightarrow> nat \<Rightarrow> string list \<Rightarrow> string \<times> float64 \<Rightarrow> string \<times> float64" where
  "parseCoding_loop_p0 L n [] st = st"
| "parseCoding_loop_p0 L n (part # rest) (coding, qvalue) =
     (let part = TrimSpace L part;
          qvalue = DefaultQValue
      in if n = 0 then parseCoding_loop_p0 L (Suc n) rest (ToLower L part, qvalue)
         else if HasPrefix part ''q='' then
           parseCoding_loop_p0 L (Suc n) rest
             (coding, clamp_qvalue (fst (ParseFloat L (TrimPrefix part ''q=''))))
         else parseCoding_loop_p0 L (Suc n) rest (coding, qvalue))"

definition parseCoding_p0 :: "stdlib \<Rightarrow> string \<Rightarrow> string \<times> float64" where
  "parseCoding_p0 L s = parseCoding_loop_p0 L 0 (Split s CHR '';'') ([], F64 0)"

text \<open>
  \<^verbatim>\<open>type codings struct { identity, gzip, deflate float64 }\<close>; the result \<open>c\<close> of
  \<^verbatim>\<open>parseEncodings\<close> starts as the zero value of the struct.
\<close>

record codings_p0 =
  identity :: float64
  gzip :: float64
  deflate :: float64

definition zero_codings_p0 :: codings_p0 where
  "zero_codings_p0 = \<lparr>identity = F64 0, gzip = F64 0, deflate = F64 0\<rparr>"

fun parseEncodings_loop_p0 :: "stdlib \<Rightarrow> string list \<Rightarrow> codings_p0 \<Rightarrow> codings_p0" where
  "parseEncodings_loop_p0 L [] c = c"
| "parseEncodings_loop_p0 L (ss # rest) c =
     (case parseCoding_p0 L ss of
        (coding, qvalue) \<Rightarrow>
          parseEncodings_loop_p0 L rest
            (if coding = ''identity'' then c\<lparr>identity := qvalue\<rparr>
             else if coding = ''gzip'' then c\<lparr>gzip := qvalue\<rparr>
             else if coding = ''deflate'' then c\<lparr>deflate := qvalue\<rparr>
             else c))"

definition parseEncodings_p0 :: "stdlib \<Rightarrow> string \<Rightarrow> codings_p0" where
  "parseEncodings_p0 L s = parseEncodings_loop_p0 L (Split s CHR '','') zero_codings_p0"

definition accepts_p0 :: "stdlib \<Rightarrow> Request \<Rightarrow> flateType" where
  "accepts_p0 L r =
     (let acceptedEncodings = parseEncodings_p0 L (Header_Get (Header r) ''Accept-Encoding'')
      in if f64_greater (gzip acceptedEncodings) (F64 0) then Gzip
         else if f64_greater (deflate acceptedEncodings) (F64 0) then Deflate
         else Identity)"


section \<open>Encoders, pools and the response sink\<close>

subsection \<open>The codec\<close>

text \<open>
  The compressors are those of \<^verbatim>\<open>compress/flate\<close> and \<^verbatim>\<open>compress/gzip\<close>. What a
  \<^verbatim>\<open>flate.Writer\<close> emits for the data written to it is a parameter
  (\<open>flate_stream\<close>). A \<^verbatim>\<open>gzip.Writer\<close> emits one member of RFC 1952: the header, the
  deflate stream of the data, and the trailer, which is the CRC-32 and the length of the
  data, four bytes each, least significant byte first. A writer that has been
  \<^verbatim>\<open>Reset\<close> carries no name, comment or extra field, so the header is the ten bytes
  \<^verbatim>\<open>1f 8b\<close>, the method 8, no flags, the modification time, no extra flags (the
  default compression level) and the operating system 255 (unknown). The four bytes of
  the modification time are a parameter: they are zero in current releases of Go and the
  Unix time of the zero \<^verbatim>\<open>time.Time\<close> in releases before 1.9.
\<close>

type_synonym bytes = "8 word list"

record codec =
  flate_stream :: "bytes \<Rightarrow> bytes"
  gzip_mtime :: "32 word"

text \<open>The CRC-32 of \<^verbatim>\<open>hash/crc32\<close> (IEEE polynomial, reflected), bit by bit.\<close>

definition crc32_bit :: "32 word \<Rightarrow> 32 word" where
  "crc32_bit c = (if bit c 0 then xor (drop_bit 1 c) 0xEDB88320 else drop_bit 1 c)"

definition crc32_byte :: "32 word \<Rightarrow> 8 word \<Rightarrow> 32 word" where
  "crc32_byte c b = (crc32_bit ^^ 8) (xor c (ucast b))"

definition crc32 :: "bytes \<Rightarrow> 32 word" where
  "crc32 data = not (foldl crc32_byte 0xFFFFFFFF data)"

definition le32 :: "32 word \<Rightarrow> bytes" where
  "le32 x = [ucast x, ucast (drop_bit 8 x), ucast (drop_bit 16 x), ucast (drop_bit 24 x)]"

definition gzip_header :: "codec \<Rightarrow> bytes" where
  "gzip_header K = [0x1F, 0x8B, 0x08, 0x00] @ le32 (gzip_mtime K) @ [0x00, 0xFF]"

definition gzip_stream :: "codec \<Rightarrow> bytes \<Rightarrow> bytes" where
  "gzip_stream K data =
     gzip_header K @ flate_stream K data @ le32 (crc32 data) @ le32 (of_nat (length data))"

subsection \<open>The gzip reader\<close>

text \<open>
  The reader of \<^verbatim>\<open>compress/gzip\<close>, as \<^verbatim>\<open>ioutil.ReadAll(gzip.NewReader(r))\<close> uses
  it on the bytes of a body: \<open>None\<close> stands for any error. The decompressor of
  \<^verbatim>\<open>compress/flate\<close> is a parameter: an inflater reads one deflate stream from the
  front of its input and returns the data and the bytes that follow the stream.
\<close>

type_synonym inflater = "bytes \<Rightarrow> (bytes \<times> bytes) option"

text \<open>
  The optional fields of a header. The extra field is two bytes of length and that many
  bytes; a name or a comment ends at its first zero byte, which has to be among the
  first 512 bytes. Each function returns what follows the field.
\<close>

definition readExtra :: "bytes \<Rightarrow> bytes option" where
  "readExtra bs =
     (case bs of
        x0 # x1 # rest \<Rightarrow>
          if length rest < unat x0 + 256 * unat x1 then None
          else Some (drop (unat x0 + 256 * unat x1) rest)
      | _ \<Rightarrow> None)"

definition readString :: "bytes \<Rightarrow> bytes option" where
  "readString bs =
     (let n = length (takeWhile (\<lambda>b. b \<noteq> 0) bs)
      in if n < length bs \<and> n < 512 then Some (drop (Suc n) bs) else None)"

text \<open>
  \<^verbatim>\<open>readHeader\<close>: ten bytes that start with \<^verbatim>\<open>1f 8b 08\<close>, then the fields that
  the flags announce (bit 2 an extra field, bit 3 a name, bit 4 a comment), then, with
  bit 1, the low two bytes of the CRC-32 of the header read so far, which are checked.
  The result is what follows the header.
\<close>

definition readHeader :: "bytes \<Rightarrow> bytes option" where
  "readHeader bs =
     (if length bs < 10 \<or> take 3 bs \<noteq> [0x1F, 0x8B, 0x08] then None
      else
        let flg = bs ! 3;
            s1 = (if bit flg 2 then readExtra (drop 10 bs) else Some (drop 10 bs));
            s2 = (if bit flg 3 then Option.bind s1 readString else s1);
            s3 = (if bit flg 4 then Option.bind s2 readString else s2)
        in if bit flg 1 then
             Option.bind s3 (\<lambda>r.
               if length r < 2
                  \<or> take 2 r \<noteq> take 2 (le32 (crc32 (take (length bs - length r) bs)))
               then None else Some (drop 2 r))
           else s3)"

text \<open>
  \<open>gunzip\<close> reads a member: the header, the deflate stream, and the eight bytes of the
  trailer, which must be the CRC-32 and the length (modulo \<open>2 ^ 32\<close>) of the data that
  the inflater returned. When bytes follow, they must be further members, whose data
  is appended. An inflater that returns more bytes than it was given is an error.
\<close>

function gunzip :: "inflater \<Rightarrow> bytes \<Rightarrow> bytes option" where
  "gunzip inflate bs =
     (case readHeader bs of
        None \<Rightarrow> None
      | Some deflated \<Rightarrow>
         (case inflate deflated of
            None \<Rightarrow> None
          | Some (d, trailer) \<Rightarrow>
              if length trailer < 8
                 \<or> take 8 trailer \<noteq> le32 (crc32 d) @ le32 (of_nat (length d)) then None
              else if drop 8 trailer = [] then Some d
              else if length (drop 8 trailer) < length bs then
                (case gunzip inflate (drop 8 trailer) of
                   None \<Rightarrow> None
                 | Some d' \<Rightarrow> Some (d @ d'))
              else None))"
  by pat_completeness auto
termination by (relation "measure (\<lambda>(inflate, bs). length bs)") auto

declare gunzip.simps [simp del]

subsection \<open>Encoder objects\<close>

text \<open>
  An encoder is an object on the heap, reached through a pointer (\<open>addr\<close>). It is bound
  to a sink: \<^verbatim>\<open>nil\<close> after \<^verbatim>\<open>NewWriter(nil)\<close>, the response \<open>w\<close> of the request at
  hand after \<^verbatim>\<open>Reset(w)\<close>, or the response of some earlier request. \<open>pending\<close> is
  the data written since the last reset. The bytes an encoder hands to its sink are
  accounted for when it is closed: by then the sink has received the whole stream of the
  data, and on the compressed paths nothing else writes to the sink in between.
\<close>

type_synonym addr = nat

datatype sinkref = NilSink | OtherSink | ResponseSink

record encoder =
  sink :: sinkref
  pending :: bytes
  closed :: bool

definition NewWriter :: encoder where
  "NewWriter = \<lparr>sink = NilSink, pending = [], closed = False\<rparr>"

text \<open>
  The response sink \<open>w\<close>: its header, the body bytes received so far, and what its
  \<^verbatim>\<open>Hijack\<close> method returns when its dynamic type implements \<^verbatim>\<open>http.Hijacker\<close>
  (\<open>None\<close> when it does not). A hijack result is the triple
  \<^verbatim>\<open>(net.Conn, *bufio.ReadWriter, error)\<close>, each \<^verbatim>\<open>nil\<close> or a value.
\<close>

type_synonym hijack_result = "nat option \<times> nat option \<times> error option"

record ResponseWriter =
  header :: "string \<rightharpoonup> string list"
  body :: bytes
  hijacker :: "hijack_result option"

definition Header_Add ::
  "(string \<rightharpoonup> string list) \<Rightarrow> string \<Rightarrow> string \<Rightarrow> (string \<rightharpoonup> string list)" where
  "Header_Add h k v = h(k \<mapsto> (case h k of None \<Rightarrow> [v] | Some vs \<Rightarrow> vs @ [v]))"

definition Header_Set ::
  "(string \<rightharpoonup> string list) \<Rightarrow> string \<Rightarrow> string \<Rightarrow> (string \<rightharpoonup> string list)" where
  "Header_Set h k v = h(k \<mapsto> [v])"

text \<open>
  \<^verbatim>\<open>type tmp struct { w io.Writer; e error }\<close>, the entries of the pool
  \<^verbatim>\<open>Writers\<close> of \<^verbatim>\<open>compress.go\<close>. \<open>tmp_w = None\<close> is the nil pointer that
  \<^verbatim>\<open>flate.NewWriter\<close> returns together with an error.
\<close>

record tmp =
  tmp_w :: "addr option"
  tmp_e :: "error option"

datatype pool = GzipPool | FlatePool

datatype event = EvReset pool addr | EvServe | EvPut pool addr | EvClose pool addr

text \<open>
  The state a request runs in: the response sink, the \<^verbatim>\<open>gzip.Writer\<close> and the
  \<^verbatim>\<open>flate.Writer\<close> objects with the next free address of each, the two package-level
  pools, and the trace of what happened to encoders. The entries of \<open>Writers\<close> are
  \<open>tmp\<close> values in \<^verbatim>\<open>compress.go\<close> and pointers in the second draft.
\<close>

record 'w world =
  resp :: ResponseWriter
  gzips :: "addr \<Rightarrow> encoder"
  flates :: "addr \<Rightarrow> encoder"
  next_gzip :: addr
  next_flate :: addr
  Gzippers :: "addr list"
  Writers :: "'w list"
  trace :: "event list"

definition enc_at :: "pool \<Rightarrow> addr \<Rightarrow> 'w world \<Rightarrow> encoder" where
  "enc_at p a s = (case p of GzipPool \<Rightarrow> gzips s a | FlatePool \<Rightarrow> flates s a)"

definition enc_update :: "pool \<Rightarrow> addr \<Rightarrow> encoder \<Rightarrow> 'w world \<Rightarrow> 'w world" where
  "enc_update p a e s =
     (case p of GzipPool \<Rightarrow> s\<lparr>gzips := (gzips s)(a := e)\<rparr>
              | FlatePool \<Rightarrow> s\<lparr>flates := (flates s)(a := e)\<rparr>)"

definition log_event :: "event \<Rightarrow> 'w world \<Rightarrow> 'w world" where
  "log_event ev s = s\<lparr>trace := trace s @ [ev]\<rparr>"

definition stream_of :: "codec \<Rightarrow> pool \<Rightarrow> bytes \<Rightarrow> bytes" where
  "stream_of K p data = (case p of GzipPool \<Rightarrow> gzip_stream K data | FlatePool \<Rightarrow> flate_stream K data)"

text \<open>\<^verbatim>\<open>Reset(w)\<close>: discard the encoder's state and bind it to the response.\<close>

definition enc_Reset :: "pool \<Rightarrow> addr \<Rightarrow> 'w world \<Rightarrow> 'w world" where
  "enc_Reset p a s =
     log_event (EvReset p a)
       (enc_update p a \<lparr>sink = ResponseSink, pending = [], closed = False\<rparr> s)"

text \<open>\<^verbatim>\<open>Write(b)\<close> on an encoder; a closed encoder takes no data.\<close>

definition enc_Write :: "pool \<Rightarrow> addr \<Rightarrow> bytes \<Rightarrow> 'w world \<Rightarrow> 'w world" where
  "enc_Write p a b s =
     (let e = enc_at p a s
      in if closed e then s else enc_update p a (e\<lparr>pending := pending e @ b\<rparr>) s)"

text \<open>
  \<^verbatim>\<open>Close()\<close>: the sink has now received the stream of the data, trailer included;
  closing a closed encoder does nothing.
\<close>

definition enc_Close :: "codec \<Rightarrow> pool \<Rightarrow> addr \<Rightarrow> 'w world \<Rightarrow> 'w world" where
  "enc_Close K p a s =
     (let e = enc_at p a s;
          s1 = (if \<not> closed e \<and> sink e = ResponseSink
                then s\<lparr>resp := (resp s)\<lparr>body := body (resp s) @ stream_of K p (pending e)\<rparr>\<rparr>
                else s)
      in log_event (EvClose p a) (enc_update p a (e\<lparr>closed := True\<rparr>) s1))"

subsection \<open>The inner handler\<close>

text \<open>
  One run of the wrapped handler is the sequence of what it does to the
  \<^verbatim>\<open>http.ResponseWriter\<close> it is given, and whether it returns or panics after that.
  Header field names are canonical.
\<close>

datatype action = Write bytes | SetHeader string string

datatype outcome = Returns | Panics

type_synonym handler = "action list \<times> outcome"

text \<open>
  The writer handed to the inner handler: \<open>w\<close> itself, or the wrapper
  \<^verbatim>\<open>CompressedResponseWriter{enc, w}\<close> (\<^verbatim>\<open>responseWriter\<close> in the second draft). The
  wrapper's \<^verbatim>\<open>Write\<close> is \<^verbatim>\<open>c.Writer.Write\<close>; \<^verbatim>\<open>Header\<close> is promoted from the
  embedded \<^verbatim>\<open>http.ResponseWriter\<close>.
\<close>

datatype writer = Direct | Wrapped pool addr

fun perform :: "writer \<Rightarrow> action \<Rightarrow> 'w world \<Rightarrow> 'w world" where
  "perform Direct (Write b) s = s\<lparr>resp := (resp s)\<lparr>body := body (resp s) @ b\<rparr>\<rparr>"
| "perform (Wrapped p a) (Write b) s = enc_Write p a b s"
| "perform wr (SetHeader k v) s = s\<lparr>resp := (resp s)\<lparr>header := Header_Set (header (resp s)) k v\<rparr>\<rparr>"

fun perform_all :: "writer \<Rightarrow> action list \<Rightarrow> 'w world \<Rightarrow> 'w world" where
  "perform_all wr [] s = s"
| "perform_all wr (x # xs) s = perform_all wr xs (perform wr x s)"

definition ServeHTTP :: "handler \<Rightarrow> writer \<Rightarrow> 'w world \<Rightarrow> 'w world" where
  "ServeHTTP h wr s = perform_all wr (fst h) (log_event EvServe s)"

text \<open>The bytes a run writes, in order, and whether it sets a given header field.\<close>

fun written :: "action list \<Rightarrow> bytes" where
  "written [] = []"
| "written (Write b # xs) = b @ written xs"
| "written (SetHeader k v # xs) = written xs"

fun sets_field :: "string \<Rightarrow> action list \<Rightarrow> bool" where
  "sets_field f [] = False"
| "sets_field f (Write b # xs) = sets_field f xs"
| "sets_field f (SetHeader k v # xs) = (k = f \<or> sets_field f xs)"


section \<open>The handlers\<close>

definition set_response_header :: "string \<Rightarrow> string \<Rightarrow> 'w world \<Rightarrow> 'w world" where
  "set_response_header k v s = s\<lparr>resp := (resp s)\<lparr>header := Header_Set (header (resp s)) k v\<rparr>\<rparr>"

definition add_response_header :: "string \<Rightarrow> string \<Rightarrow> 'w world \<Rightarrow> 'w world" where
  "add_response_header k v s = s\<lparr>resp := (resp s)\<lparr>header := Header_Add (header (resp s)) k v\<rparr>\<rparr>"

text \<open>
  \<^verbatim>\<open>GetGzip\<close>, the same in both drafts: \<^verbatim>\<open>Get\<close> takes an entry out of the pool, or
  calls \<^verbatim>\<open>New\<close> (\<^verbatim>\<open>gzip.NewWriter(nil)\<close>, a fresh object) when the pool is empty;
  then \<^verbatim>\<open>g.Reset(w)\<close>.
\<close>

definition GetGzip :: "'w world \<Rightarrow> addr \<times> 'w world" where
  "GetGzip s =
     (case Gzippers s of
        [] \<Rightarrow>
          (let g = next_gzip s
           in (g, enc_Reset GzipPool g (s\<lparr>gzips := (gzips s)(g := NewWriter), next_gzip := Suc g\<rparr>)))
      | g # rest \<Rightarrow> (g, enc_Reset GzipPool g (s\<lparr>Gzippers := rest\<rparr>)))"

text \<open>\<^verbatim>\<open>Gzippers.Put(gzw)\<close> and \<^verbatim>\<open>writers.Put(flw)\<close>.\<close>

definition Put_Gzippers :: "addr \<Rightarrow> 'w world \<Rightarrow> 'w world" where
  "Put_Gzippers g s = log_event (EvPut GzipPool g) (s\<lparr>Gzippers := g # Gzippers s\<rparr>)"

definition Put_writers_p0 :: "addr \<Rightarrow> addr world \<Rightarrow> addr world" where
  "Put_writers_p0 f s = log_event (EvPut FlatePool f) (s\<lparr>Writers := f # Writers s\<rparr>)"

subsection \<open>\<^verbatim>\<open>compress.go\<close>\<close>

text \<open>
  \<^verbatim>\<open>GetWriter\<close> takes a \<open>tmp\<close> out of \<^verbatim>\<open>Writers\<close> (\<^verbatim>\<open>New\<close> stores what
  \<^verbatim>\<open>flate.NewWriter(nil, flate.DefaultCompression)\<close> returns, which is a fresh writer
  and no error), reads its two fields and calls \<^verbatim>\<open>f.Reset(w)\<close> before it returns.
  \<^verbatim>\<open>Reset\<close> through a nil pointer is a run-time panic: the result is then \<open>Inl\<close> of
  the state at the panic. The parameter \<^verbatim>\<open>level\<close> is not used by the source.
\<close>

definition GetWriter :: "tmp world \<Rightarrow> tmp world + (addr \<times> error option \<times> tmp world)" where
  "GetWriter s =
     (case (case Writers s of
              [] \<Rightarrow>
                (let f = next_flate s
                 in (\<lparr>tmp_w = Some f, tmp_e = None\<rparr>,
                     s\<lparr>flates := (flates s)(f := NewWriter), next_flate := Suc f\<rparr>))
            | t # rest \<Rightarrow> (t, s\<lparr>Writers := rest\<rparr>)) of
        (t, s1) \<Rightarrow>
          (case tmp_w t of
             None \<Rightarrow> Inl s1
           | Some f \<Rightarrow> Inr (f, tmp_e t, enc_Reset FlatePool f s1)))"

text \<open>
  The handler that \<^verbatim>\<open>CompressedHandler(h)\<close> returns, run on a request \<open>r\<close> in a state
  whose \<open>resp\<close> is the response \<open>w\<close>. Deferred calls run when the function is left, by
  return or by panic, so they follow \<^verbatim>\<open>h.ServeHTTP\<close> whatever its outcome. In the
  \<^verbatim>\<open>Gzip\<close> case the deferred function is \<^verbatim>\<open>Gzippers.Put(gzw); gzw.Close()\<close>, in this
  order; in the \<^verbatim>\<open>Deflate\<close> case \<^verbatim>\<open>defer flw.Close()\<close> comes before the test of
  \<^verbatim>\<open>err\<close>, and \<^verbatim>\<open>goto ft\<close> leads to the default case.
\<close>

definition CompressedHandler ::
  "codec \<Rightarrow> stdlib \<Rightarrow> handler \<Rightarrow> Request \<Rightarrow> tmp world \<Rightarrow> outcome \<times> tmp world" where
  "CompressedHandler K L h r s0 =
     (let s = add_response_header ''Vary'' ''Accept-Encoding'' s0
      in case accepts L r of
           Gzip \<Rightarrow>
             (case GetGzip s of
                (gzw, s1) \<Rightarrow>
                  (let s2 = set_response_header ''Content-Encoding'' ''gzip'' s1;
                       s3 = ServeHTTP h (Wrapped GzipPool gzw) s2;
                       s4 = Put_Gzippers gzw s3
                   in (snd h, enc_Close K GzipPool gzw s4)))
         | Deflate \<Rightarrow>
             (case GetWriter s of
                Inl s1 \<Rightarrow> (Panics, s1)
              | Inr (flw, err, s1) \<Rightarrow>
                  if err \<noteq> None then
                    (snd h, enc_Close K FlatePool flw (ServeHTTP h Direct s1))
                  else
                    (let s2 = set_response_header ''Content-Encoding'' ''deflate'' s1;
                         s3 = ServeHTTP h (Wrapped FlatePool flw) s2
                     in (snd h, enc_Close K FlatePool flw s3)))
         | Identity \<Rightarrow> (snd h, ServeHTTP h Direct s))"

text \<open>
  \<^verbatim>\<open>CompressedResponseWriter.Hijack\<close>, for the wrapper around the encoder \<open>a\<close> of
  pool \<open>p\<close> and the response \<open>w\<close>: the type assertion
  \<^verbatim>\<open>c.ResponseWriter.(http.Hijacker)\<close> either fails, and the method returns
  \<^verbatim>\<open>nil, nil, ErrUnHijackable\<close>, or gives \<open>hj\<close>, and it returns \<^verbatim>\<open>hj.Hijack()\<close>.
\<close>

definition Hijack :: "pool \<Rightarrow> addr \<Rightarrow> 'w world \<Rightarrow> hijack_result" where
  "Hijack p a s =
     (case hijacker (resp s) of
        None \<Rightarrow> (None, None, Some ErrUnHijackable)
      | Some hj \<Rightarrow> hj)"

subsection \<open>The second draft\<close>

text \<open>
  \<^verbatim>\<open>GetWriter\<close> has no error result here: the pool holds \<^verbatim>\<open>*flate.Writer\<close> values
  and \<^verbatim>\<open>New\<close> drops the error of \<^verbatim>\<open>flate.NewWriter\<close>.
\<close>

definition GetWriter_p0 :: "addr world \<Rightarrow> addr \<times> addr world" where
  "GetWriter_p0 s =
     (case Writers s of
        [] \<Rightarrow>
          (let f = next_flate s
           in (f, enc_Reset FlatePool f (s\<lparr>flates := (flates s)(f := NewWriter), next_flate := Suc f\<rparr>)))
      | f # rest \<Rightarrow> (f, enc_Reset FlatePool f (s\<lparr>Writers := rest\<rparr>)))"

text \<open>
  The handler that \<^verbatim>\<open>Handle(h)\<close> returns. Both deferred functions put the encoder
  into its pool and then close it.
\<close>

definition Handle ::
  "codec \<Rightarrow> stdlib \<Rightarrow> handler \<Rightarrow> Request \<Rightarrow> addr world \<Rightarrow> outcome \<times> addr world" where
  "Handle K L h r s0 =
     (let s = add_response_header ''Vary'' ''Accept-Encoding'' s0
      in case accepts_p0 L r of
           Gzip \<Rightarrow>
             (case GetGzip s of
                (gzw, s1) \<Rightarrow>
                  (let s2 = set_response_header ''Content-Encoding'' ''gzip'' s1;
                       s3 = ServeHTTP h (Wrapped GzipPool gzw) s2;
                       s4 = Put_Gzippers gzw s3
                   in (snd h, enc_Close K GzipPool gzw s4)))
         | Deflate \<Rightarrow>
             (case GetWriter_p0 s of
                (flw, s1) \<Rightarrow>
                  (let s2 = set_response_header ''Content-Encoding'' ''deflate'' s1;
                       s3 = ServeHTTP h (Wrapped FlatePool flw) s2;
                       s4 = Put_writers_p0 flw s3
                   in (snd h, enc_Close K FlatePool flw s4)))
         | Identity \<Rightarrow> (snd h, ServeHTTP h Direct s))"

text \<open>\<^verbatim>\<open>(*responseWriter).Hijack\<close>, the same method on the second draft's wrapper.\<close>

definition Hijack_p0 :: "pool \<Rightarrow> addr \<Rightarrow> 'w world \<Rightarrow> hijack_result" where
  "Hijack_p0 p a s =
     (case hijacker (resp s) of
        None \<Rightarrow> (None, None, Some ErrUnHijackable)
      | Some hj \<Rightarrow> hj)"

section \<open>A reference codec\<close>

text \<open>
  An instance of the codec for evaluation: the deflate stream that holds the data in
  stored blocks of at most 65535 bytes, closed by an empty final stored block (the
  five bytes \<^verbatim>\<open>01 00 00 ff ff\<close>, which is all that is emitted for empty data), and
  a modification time of zero.
\<close>

definition le16 :: "nat \<Rightarrow> bytes" where
  "le16 n = [of_nat (n mod 256), of_nat (n div 256 mod 256)]"

fun stored_blocks :: "bytes \<Rightarrow> bytes" where
  "stored_blocks [] = []"
| "stored_blocks (b # bs) =
     (let chunk = take 65535 (b # bs)
      in 0 # le16 (length chunk) @ le16 (65535 - length chunk) @ chunk
         @ stored_blocks (drop 65535 (b # bs)))"

definition stored_deflate :: "bytes \<Rightarrow> bytes" where
  "stored_deflate data = stored_blocks data @ [0x01, 0x00, 0x00, 0xFF, 0xFF]"

definition stored_codec :: codec where
  "stored_codec = \<lparr>flate_stream = stored_deflate, gzip_mtime = 0\<rparr>"

text \<open>
  \<open>inflate_stored\<close> is an inflater for streams of stored blocks. A block starts with a
  byte whose bit 0 marks the final block and whose bits 1 and 2 are the block type, 0
  for a stored block (any other type is refused); the length of the block and its
  complement follow, two bytes each, and then the data.
\<close>

fun inflate_stored :: inflater where
  "inflate_stored (h # l0 # l1 # n0 # n1 # rest) =
     (let len = unat l0 + 256 * unat l1;
          nlen = unat n0 + 256 * unat n1
      in if and h 6 \<noteq> 0 \<or> len + nlen \<noteq> 65535 \<or> length rest < len then None
         else if bit h 0 then Some (take len rest, drop len rest)
         else (case inflate_stored (drop len rest) of
                 None \<Rightarrow> None
               | Some (d, r) \<Rightarrow> Some (take len rest @ d, r)))"
| "inflate_stored bs = None"

text \<open>An empty state: no pooled encoder, an empty response that cannot be hijacked.\<close>

definition empty_response :: ResponseWriter where
  "empty_response = \<lparr>header = Map.empty, body = [], hijacker = None\<rparr>"

definition empty_world :: "'w world" where
  "empty_world =
     \<lparr>resp = empty_response, gzips = (\<lambda>_. NewWriter), flates = (\<lambda>_. NewWriter),
      next_gzip = 0, next_flate = 0, Gzippers = [], Writers = [], trace = []\<rparr>"

definition request_with :: "string \<Rightarrow> Request" where
  "request_with v = \<lparr>Header = [''Accept-Encoding'' \<mapsto> [v]]\<rparr>"

definition request_without :: Request where
  "request_without = \<lparr>Header = Map.empty\<rparr>"


section \<open>Notions used in the statements\<close>

text \<open>The three codings that \<^verbatim>\<open>accepts\<close> reads.\<close>

definition recognised :: "string \<Rightarrow> bool" where
  "recognised c = (c = ''identity'' \<or> c = ''gzip'' \<or> c = ''deflate'')"

text \<open>
  The tests that \<^verbatim>\<open>accepts\<close> makes on the parsed weights, in \<^verbatim>\<open>compress.go\<close>
  (identity first) and in the second draft (identity ignored).
\<close>

definition selection :: "codings \<Rightarrow> flateType" where
  "selection c =
     (if f64_greater (weight c ''identity'') (F64 0) then Identity
      else if f64_greater (weight c ''gzip'') (F64 0) then Gzip
      else if f64_greater (weight c ''deflate'') (F64 0) then Deflate
      else Identity)"

definition selection_p0 :: "codings_p0 \<Rightarrow> flateType" where
  "selection_p0 c =
     (if f64_greater (gzip c) (F64 0) then Gzip
      else if f64_greater (deflate c) (F64 0) then Deflate
      else Identity)"

text \<open>Two mappings give the three codings that \<^verbatim>\<open>accepts\<close> reads the same entry.\<close>

definition agree :: "codings \<Rightarrow> codings \<Rightarrow> bool" where
  "agree c c' = (c ''identity'' = c' ''identity'' \<and> c ''gzip'' = c' ''gzip''
                 \<and> c ''deflate'' = c' ''deflate'')"


section \<open>Properties of the parsers\<close>

lemma parseEncodings_loop_filter:
  "agree c c' \<Longrightarrow>
   agree (fst (parseEncodings_loop L ts (c, e)))
         (fst (parseEncodings_loop L (filter (\<lambda>t. recognised (fst (parseCoding L t))) ts) (c', e')))"
proof (induction ts arbitrary: c c' e e')
  case Nil then show ?case by simp
next
  case (Cons t ts)
  obtain n q er where pc: "parseCoding L t = (n, q, er)" by (cases "parseCoding L t")
  show ?case
  proof (cases er)
    case (Some x)
    with pc Cons show ?thesis by simp
  next
    case None
    show ?thesis
    proof (cases "recognised n")
      case True
      have "agree (c(n \<mapsto> q)) (c'(n \<mapsto> q))"
        using Cons.prems by (simp add: agree_def)
      with pc None True Cons.IH show ?thesis by simp
    next
      case False
      have "agree (c(n \<mapsto> q)) c'"
        using Cons.prems False by (auto simp: agree_def recognised_def)
      with pc None False Cons.IH show ?thesis by simp
    qed
  qed
qed

lemma selection_agree: "agree c c' \<Longrightarrow> selection c = selection c'"
  by (simp add: agree_def selection_def weight_def)

lemma accepts_selection:
  "accepts L r = selection (fst (parseEncodings L (Header_Get (Header r) ''Accept-Encoding'')))"
  by (simp add: accepts_def selection_def split_beta)

lemma accepts_p0_selection:
  "accepts_p0 L r = selection_p0 (parseEncodings_p0 L (Header_Get (Header r) ''Accept-Encoding''))"
  by (simp add: accepts_p0_def selection_p0_def Let_def)

lemma parseEncodings_loop_p0_filter:
  "parseEncodings_loop_p0 L (filter (\<lambda>t. recognised (fst (parseCoding_p0 L t))) ts) c
     = parseEncodings_loop_p0 L ts c"
  by (induction ts arbitrary: c) (auto simp: recognised_def split_beta)

lemma parseEncodings_loop_dom:
  "dom (fst (parseEncodings_loop L ts (c, e))) =
     dom c \<union> (\<lambda>t. fst (parseCoding L t)) ` {t \<in> set ts. snd (snd (parseCoding L t)) = None}"
proof (induction ts arbitrary: c e)
  case Nil then show ?case by simp
next
  case (Cons t ts)
  obtain n q er where pc: "parseCoding L t = (n, q, er)" by (cases "parseCoding L t")
  show ?case
  proof (cases er)
    case (Some x)
    with pc Cons show ?thesis by auto
  next
    case None
    with pc have S: "{u \<in> set (t # ts). snd (snd (parseCoding L u)) = None}
        = insert t {u \<in> set ts. snd (snd (parseCoding L u)) = None}"
      by auto
    have "dom (fst (parseEncodings_loop L (t # ts) (c, e)))
        = dom (fst (parseEncodings_loop L ts (c(n \<mapsto> q), e)))"
      using pc None by simp
    also have "\<dots> = dom (c(n \<mapsto> q))
        \<union> (\<lambda>t. fst (parseCoding L t)) ` {u \<in> set ts. snd (snd (parseCoding L u)) = None}"
      by (rule Cons.IH)
    also have "dom (c(n \<mapsto> q)) = insert n (dom c)"
      by simp
    finally show ?thesis
      unfolding S using pc by simp
  qed
qed

section \<open>Properties of the handlers\<close>

lemma perform_all_header:
  "\<not> sets_field f xs \<Longrightarrow> header (resp (perform_all wr xs s)) f = header (resp s) f"
proof (induction xs arbitrary: s)
  case Nil then show ?case by simp
next
  case (Cons x xs)
  show ?case
  proof (cases x)
    case (Write b)
    with Cons show ?thesis
      by (cases wr) (simp_all add: enc_Write_def enc_update_def Let_def split: pool.splits)
  next
    case (SetHeader k v)
    with Cons show ?thesis by (auto simp add: Header_Set_def)
  qed
qed

lemma perform_all_Direct_body:
  "body (resp (perform_all Direct xs s)) = body (resp s) @ written xs"
proof (induction xs arbitrary: s)
  case Nil then show ?case by simp
next
  case (Cons x xs) then show ?case by (cases x) simp_all
qed

lemma enc_at_enc_update [simp]: "enc_at p a (enc_update p a e s) = e"
  by (cases p) (simp_all add: enc_at_def enc_update_def)

lemma resp_enc_update [simp]: "resp (enc_update p a e s) = resp s"
  by (cases p) (simp_all add: enc_update_def)

lemma resp_log_event [simp]: "resp (log_event ev s) = resp s"
  by (simp add: log_event_def)

lemma enc_at_log_event [simp]: "enc_at p a (log_event ev s) = enc_at p a s"
  by (cases p) (simp_all add: enc_at_def log_event_def)

lemma enc_at_resp_update [simp]: "enc_at p a (s\<lparr>resp := r\<rparr>) = enc_at p a s"
  by (cases p) (simp_all add: enc_at_def)

lemma perform_all_Wrapped_body:
  "body (resp (perform_all (Wrapped p a) xs s)) = body (resp s)"
proof (induction xs arbitrary: s)
  case Nil then show ?case by simp
next
  case (Cons x xs) then show ?case by (cases x) (simp_all add: enc_Write_def Let_def)
qed

lemma perform_all_Wrapped_enc:
  "\<not> closed (enc_at p a s) \<Longrightarrow>
   enc_at p a (perform_all (Wrapped p a) xs s)
     = (enc_at p a s)\<lparr>pending := pending (enc_at p a s) @ written xs\<rparr>"
proof (induction xs arbitrary: s)
  case Nil then show ?case by simp
next
  case (Cons x xs) then show ?case by (cases x) (simp_all add: enc_Write_def Let_def)
qed

lemma enc_Close_body:
  "\<not> closed (enc_at p a s) \<Longrightarrow> sink (enc_at p a s) = ResponseSink \<Longrightarrow>
   body (resp (enc_Close K p a s)) = body (resp s) @ stream_of K p (pending (enc_at p a s))"
  by (simp add: enc_Close_def Let_def)

lemma enc_Close_header: "header (resp (enc_Close K p a s)) = header (resp s)"
  by (simp add: enc_Close_def Let_def)

lemma enc_at_Gzippers_update [simp]: "enc_at p a (s\<lparr>Gzippers := g\<rparr>) = enc_at p a s"
  by (cases p) (simp_all add: enc_at_def)

lemma enc_at_Writers_update [simp]: "enc_at p a (s\<lparr>Writers := g\<rparr>) = enc_at p a s"
  by (cases p) (simp_all add: enc_at_def)

lemma Put_Gzippers_same [simp]:
  "resp (Put_Gzippers g s) = resp s" "enc_at p a (Put_Gzippers g s) = enc_at p a s"
  by (simp_all add: Put_Gzippers_def)

lemma Put_writers_p0_same [simp]:
  "resp (Put_writers_p0 g s) = resp s" "enc_at p a (Put_writers_p0 g s) = enc_at p a s"
  by (simp_all add: Put_writers_p0_def)

lemma served_wrapped:
  "resp (ServeHTTP h (Wrapped p a) (set_response_header k v (enc_Reset p a s)))
     = (resp s)\<lparr>header := header (resp (ServeHTTP h (Wrapped p a)
                     (set_response_header k v (enc_Reset p a s))))\<rparr>"
  "enc_at p a (ServeHTTP h (Wrapped p a) (set_response_header k v (enc_Reset p a s)))
     = \<lparr>sink = ResponseSink, pending = written (fst h), closed = False\<rparr>"
proof -
  let ?s0 = "log_event EvServe (set_response_header k v (enc_Reset p a s))"
  have e0: "enc_at p a ?s0 = \<lparr>sink = ResponseSink, pending = [], closed = False\<rparr>"
    by (simp add: set_response_header_def enc_Reset_def)
  then show "enc_at p a (ServeHTTP h (Wrapped p a) (set_response_header k v (enc_Reset p a s)))
     = \<lparr>sink = ResponseSink, pending = written (fst h), closed = False\<rparr>"
    by (simp add: ServeHTTP_def perform_all_Wrapped_enc)
  have "body (resp (ServeHTTP h (Wrapped p a) (set_response_header k v (enc_Reset p a s))))
      = body (resp s)"
    by (simp add: ServeHTTP_def perform_all_Wrapped_body set_response_header_def enc_Reset_def)
  moreover have "hijacker (resp (perform_all wr xs t)) = hijacker (resp t)" for wr xs and t :: "'a world"
  proof (induction xs arbitrary: t)
    case Nil then show ?case by simp
  next
    case (Cons x xs) then show ?case
      by (cases x; cases wr) (simp_all add: enc_Write_def Let_def)
  qed
  then have "hijacker (resp (ServeHTTP h (Wrapped p a) (set_response_header k v (enc_Reset p a s))))
      = hijacker (resp s)"
    by (simp add: ServeHTTP_def set_response_header_def enc_Reset_def)
  ultimately show "resp (ServeHTTP h (Wrapped p a) (set_response_header k v (enc_Reset p a s)))
     = (resp s)\<lparr>header := header (resp (ServeHTTP h (Wrapped p a)
                     (set_response_header k v (enc_Reset p a s))))\<rparr>"
    by (intro ResponseWriter.equality) simp_all
qed

lemma wrapped_path_body:
  assumes "resp s' = resp (ServeHTTP h (Wrapped p a) (set_response_header k v (enc_Reset p a s)))"
      and "enc_at p a s' = enc_at p a (ServeHTTP h (Wrapped p a) (set_response_header k v (enc_Reset p a s)))"
  shows "body (resp (enc_Close K p a s')) = body (resp s) @ stream_of K p (written (fst h))"
proof -
  have e: "enc_at p a s' = \<lparr>sink = ResponseSink, pending = written (fst h), closed = False\<rparr>"
    using assms(2) by (simp add: served_wrapped(2))
  have "body (resp s') = body (resp s)"
    using assms(1) served_wrapped(1) [of h p a k v s] by (metis ResponseWriter.select_convs(2) ResponseWriter.surjective ResponseWriter.update_convs(1))
  with e show ?thesis by (simp add: enc_Close_body)
qed

lemma wrapped_path_header:
  assumes "resp s' = resp (ServeHTTP h (Wrapped p a) (set_response_header k v (enc_Reset p a s)))"
      and "\<not> sets_field k (fst h)"
  shows "header (resp (enc_Close K p a s')) k = Some [v]"
  using assms
  by (simp add: enc_Close_header ServeHTTP_def perform_all_header
      set_response_header_def enc_Reset_def Header_Set_def)

lemma GetGzip_form: "\<exists>g s1. GetGzip s = (g, enc_Reset GzipPool g s1) \<and> resp s1 = resp s"
proof (cases "Gzippers s")
  case Nil
  then have "GetGzip s = (next_gzip s, enc_Reset GzipPool (next_gzip s)
      (s\<lparr>gzips := (gzips s)(next_gzip s := NewWriter), next_gzip := Suc (next_gzip s)\<rparr>))"
    by (simp add: GetGzip_def Let_def)
  moreover have "resp (s\<lparr>gzips := (gzips s)(next_gzip s := NewWriter),
      next_gzip := Suc (next_gzip s)\<rparr>) = resp s"
    by simp
  ultimately show ?thesis by blast
next
  case (Cons g rest)
  then have "GetGzip s = (g, enc_Reset GzipPool g (s\<lparr>Gzippers := rest\<rparr>))"
    by (simp add: GetGzip_def)
  moreover have "resp (s\<lparr>Gzippers := rest\<rparr>) = resp s"
    by simp
  ultimately show ?thesis by blast
qed

lemma GetWriter_p0_form:
  "\<exists>f s1. GetWriter_p0 s = (f, enc_Reset FlatePool f s1) \<and> resp s1 = resp s"
proof (cases "Writers s")
  case Nil
  then have "GetWriter_p0 s = (next_flate s, enc_Reset FlatePool (next_flate s)
      (s\<lparr>flates := (flates s)(next_flate s := NewWriter), next_flate := Suc (next_flate s)\<rparr>))"
    by (simp add: GetWriter_p0_def Let_def)
  moreover have "resp (s\<lparr>flates := (flates s)(next_flate s := NewWriter),
      next_flate := Suc (next_flate s)\<rparr>) = resp s"
    by simp
  ultimately show ?thesis by blast
next
  case (Cons f rest)
  then have "GetWriter_p0 s = (f, enc_Reset FlatePool f (s\<lparr>Writers := rest\<rparr>))"
    by (simp add: GetWriter_p0_def)
  moreover have "resp (s\<lparr>Writers := rest\<rparr>) = resp s"
    by simp
  ultimately show ?thesis by blast
qed

lemma resp_enc_Reset [simp]: "resp (enc_Reset p a s) = resp s"
  by (simp add: enc_Reset_def)

lemma body_add_response_header [simp]:
  "body (resp (add_response_header k v s)) = body (resp s)"
  by (simp add: add_response_header_def)

lemma CompressedHandler_Gzip:
  assumes "accepts L r = Gzip"
  shows "body (resp (snd (CompressedHandler K L h r s)))
           = body (resp s) @ gzip_stream K (written (fst h))"
    and "\<not> sets_field ''Content-Encoding'' (fst h) \<Longrightarrow>
         header (resp (snd (CompressedHandler K L h r s))) ''Content-Encoding'' = Some [''gzip'']"
    and "fst (CompressedHandler K L h r s) = snd h"
proof -
  obtain g s1 where g: "GetGzip (add_response_header ''Vary'' ''Accept-Encoding'' s)
      = (g, enc_Reset GzipPool g s1)"
    and r: "resp s1 = resp (add_response_header ''Vary'' ''Accept-Encoding'' s)"
    using GetGzip_form by blast
  from r have b: "body (resp s1) = body (resp s)" by simp
  show "body (resp (snd (CompressedHandler K L h r s)))
           = body (resp s) @ gzip_stream K (written (fst h))"
    using assms g b
    by (simp add: CompressedHandler_def Let_def wrapped_path_body stream_of_def
        del: body_add_response_header)
  show "header (resp (snd (CompressedHandler K L h r s))) ''Content-Encoding'' = Some [''gzip'']"
    if "\<not> sets_field ''Content-Encoding'' (fst h)"
    using assms g that
    by (simp add: CompressedHandler_def Let_def wrapped_path_header)
  show "fst (CompressedHandler K L h r s) = snd h"
    using assms g by (simp add: CompressedHandler_def Let_def)
qed

lemma Handle_Gzip:
  assumes "accepts_p0 L r = Gzip"
  shows "body (resp (snd (Handle K L h r s)))
           = body (resp s) @ gzip_stream K (written (fst h))"
    and "\<not> sets_field ''Content-Encoding'' (fst h) \<Longrightarrow>
         header (resp (snd (Handle K L h r s))) ''Content-Encoding'' = Some [''gzip'']"
    and "fst (Handle K L h r s) = snd h"
proof -
  obtain g s1 where g: "GetGzip (add_response_header ''Vary'' ''Accept-Encoding'' s)
      = (g, enc_Reset GzipPool g s1)"
    and r: "resp s1 = resp (add_response_header ''Vary'' ''Accept-Encoding'' s)"
    using GetGzip_form by blast
  from r have b: "body (resp s1) = body (resp s)" by simp
  show "body (resp (snd (Handle K L h r s)))
           = body (resp s) @ gzip_stream K (written (fst h))"
    using assms g b
    by (simp add: Handle_def Let_def wrapped_path_body stream_of_def
        del: body_add_response_header)
  show "header (resp (snd (Handle K L h r s))) ''Content-Encoding'' = Some [''gzip'']"
    if "\<not> sets_field ''Content-Encoding'' (fst h)"
    using assms g that
    by (simp add: Handle_def Let_def wrapped_path_header)
  show "fst (Handle K L h r s) = snd h"
    using assms g by (simp add: Handle_def Let_def)
qed

lemma accepts_gzip_header:
  assumes "Header r ''Accept-Encoding'' = Some [''gzip'']"
      and "ToLower L (TrimSpace L ''gzip'') = ''gzip''"
  shows "accepts L r = Gzip" and "accepts_p0 L r = Gzip"
  using assms
  by (simp_all add: accepts_def accepts_p0_def parseEncodings_def parseEncodings_p0_def
      parseCoding_def parseCoding_p0_def Header_Get_def Let_def weight_def f64_greater_def
      DefaultQValue_def zero_codings_p0_def)

lemma gzip_stream_not_Nil: "gzip_stream K data \<noteq> []"
  by (simp add: gzip_stream_def le32_def)

lemma Identity_path:
  "body (resp (ServeHTTP h Direct (add_response_header ''Vary'' v s))) = body (resp s) @ written (fst h)"
  "\<not> sets_field ''Content-Encoding'' (fst h) \<Longrightarrow>
   header (resp (ServeHTTP h Direct (add_response_header ''Vary'' v s))) ''Content-Encoding''
     = header (resp s) ''Content-Encoding''"
  by (simp_all add: ServeHTTP_def perform_all_Direct_body perform_all_header
      add_response_header_def Header_Add_def)

lemma no_header_parse:
  assumes "Header r ''Accept-Encoding'' = None" and "ToLower L (TrimSpace L []) = []"
  shows "parseEncodings L (Header_Get (Header r) ''Accept-Encoding'')
           = (Map.empty, Some [([], ErrEmptyContentCoding)])"
    and "parseEncodings_p0 L (Header_Get (Header r) ''Accept-Encoding'') = zero_codings_p0"
  using assms
  by (simp_all add: parseEncodings_def parseEncodings_p0_def parseCoding_def parseCoding_p0_def
      Header_Get_def Let_def)


section \<open>The claims about negotiation\<close>

text \<open>
  Claim C3, as stated: the mapping produced by the parser contains at most the keys
  identity, gzip and deflate; "compress, gzip" yields exactly \<open>{gzip: 1.0}\<close> and "*"
  yields the empty mapping. This fails for \<^verbatim>\<open>parseEncodings\<close> of
  \<^verbatim>\<open>compress.go\<close>, whose result is a map keyed by whatever name a token has:
  it holds the key \<^verbatim>\<open>compress\<close> for the first header and the key \<^verbatim>\<open>*\<close> for
  the second.
\<close>

theorem parseEncodings_retains_other_codings:
  "\<not> dom (fst (parseEncodings go_ascii ''compress, gzip'')) \<subseteq> {''identity'', ''gzip'', ''deflate''}
   \<and> fst (parseEncodings go_ascii ''compress, gzip'') ''compress'' = Some (F64 1)
   \<and> fst (parseEncodings go_ascii ''compress, gzip'') ''gzip'' = Some (F64 1)
   \<and> fst (parseEncodings go_ascii ''*'') ''*'' = Some (F64 1)"
proof -
  have c: "fst (parseEncodings go_ascii ''compress, gzip'') ''compress'' = Some (F64 1)"
    by code_simp
  have g: "fst (parseEncodings go_ascii ''compress, gzip'') ''gzip'' = Some (F64 1)"
    by code_simp
  have w: "fst (parseEncodings go_ascii ''*'') ''*'' = Some (F64 1)"
    by code_simp
  from c have "''compress'' \<in> dom (fst (parseEncodings go_ascii ''compress, gzip''))"
    by (rule domI)
  moreover have "''compress'' \<notin> {''identity'', ''gzip'', ''deflate''}"
    by simp
  ultimately have "\<not> dom (fst (parseEncodings go_ascii ''compress, gzip''))
      \<subseteq> {''identity'', ''gzip'', ''deflate''}"
    by blast
  with c g w show ?thesis by blast
qed

text \<open>
  Claim C3, amended: for every Accept-Encoding header, a token that names a coding
  other than identity, gzip and deflate (the wildcard included) does not influence
  selection: in both drafts \<^verbatim>\<open>accepts\<close> returns what it would return with those
  tokens removed from the list. The second draft keeps three weights and nothing else,
  so its whole result is that of the list without those tokens ("compress, gzip" gives
  gzip 1.0 alone, "*" gives no weight at all). The map of \<^verbatim>\<open>compress.go\<close> does
  retain such tokens: its keys are the names of all tokens that parse without error.
\<close>

theorem unrecognised_codings_do_not_influence_selection:
  "accepts L r =
     selection (fst (parseEncodings_loop L
       (filter (\<lambda>t. recognised (fst (parseCoding L t)))
          (Split (Header_Get (Header r) ''Accept-Encoding'') CHR '','')) (Map.empty, [])))
   \<and> accepts_p0 L r =
     selection_p0 (parseEncodings_loop_p0 L
       (filter (\<lambda>t. recognised (fst (parseCoding_p0 L t)))
          (Split (Header_Get (Header r) ''Accept-Encoding'') CHR '','')) zero_codings_p0)
   \<and> parseEncodings_p0 L s =
     parseEncodings_loop_p0 L
       (filter (\<lambda>t. recognised (fst (parseCoding_p0 L t))) (Split s CHR '','')) zero_codings_p0
   \<and> dom (fst (parseEncodings L s)) =
     (\<lambda>t. fst (parseCoding L t)) ` {t \<in> set (Split s CHR '',''). snd (snd (parseCoding L t)) = None}
   \<and> parseEncodings_p0 go_ascii ''compress, gzip'' = \<lparr>identity = F64 0, gzip = F64 1, deflate = F64 0\<rparr>
   \<and> parseEncodings_p0 go_ascii ''*'' = zero_codings_p0"
proof -
  let ?hdr = "Header_Get (Header r) ''Accept-Encoding''"
  have "agree (fst (parseEncodings_loop L (Split ?hdr CHR '','') (Map.empty, [])))
     (fst (parseEncodings_loop L
       (filter (\<lambda>t. recognised (fst (parseCoding L t))) (Split ?hdr CHR '','')) (Map.empty, [])))"
    by (rule parseEncodings_loop_filter) (simp add: agree_def)
  then have a: "accepts L r =
     selection (fst (parseEncodings_loop L
       (filter (\<lambda>t. recognised (fst (parseCoding L t))) (Split ?hdr CHR '','')) (Map.empty, [])))"
    by (simp add: accepts_selection parseEncodings_def split_beta selection_agree)
  have b: "accepts_p0 L r =
     selection_p0 (parseEncodings_loop_p0 L
       (filter (\<lambda>t. recognised (fst (parseCoding_p0 L t))) (Split ?hdr CHR '','')) zero_codings_p0)"
    by (simp add: accepts_p0_selection parseEncodings_p0_def parseEncodings_loop_p0_filter)
  have c: "parseEncodings_p0 L s =
     parseEncodings_loop_p0 L
       (filter (\<lambda>t. recognised (fst (parseCoding_p0 L t))) (Split s CHR '','')) zero_codings_p0"
    by (simp add: parseEncodings_p0_def parseEncodings_loop_p0_filter)
  have d: "dom (fst (parseEncodings L s)) =
     (\<lambda>t. fst (parseCoding L t)) ` {t \<in> set (Split s CHR '',''). snd (snd (parseCoding L t)) = None}"
    by (simp add: parseEncodings_def split_beta parseEncodings_loop_dom)
  have e: "parseEncodings_p0 go_ascii ''compress, gzip''
      = \<lparr>identity = F64 0, gzip = F64 1, deflate = F64 0\<rparr>"
    by code_simp
  have f: "parseEncodings_p0 go_ascii ''*'' = zero_codings_p0"
    by code_simp
  from a b c d e f show ?thesis by blast
qed

text \<open>
  Claim C4: for every single coding token the resulting weight is determined by the
  \<^verbatim>\<open>q=\<close> segment alone: a q-value that parses replaces the default with the value
  clamped to [0.0, 1.0], one that fails to parse leaves the default 1.0 or surfaces a
  per-token error, and a segment without the \<^verbatim>\<open>q=\<close> prefix leaves the weight
  unchanged. The code does the first (\<^verbatim>\<open>q=0\<close> gives 0.0, \<^verbatim>\<open>q=-1\<close> gives 0.0,
  \<^verbatim>\<open>q=1.5\<close> gives 1.0) but not the last: both drafts assign the default to the weight
  at every segment of the loop, where the comment on \<^verbatim>\<open>DefaultQValue\<close> has it for a
  coding with no explicit q-value, so any segment after the q-value puts the weight back
  to 1.0. The tokens \<^verbatim>\<open>gzip;q=0;x\<close> and \<^verbatim>\<open>gzip;q=0;\<close> get the weight 1.0, and a
  header that refuses gzip in this way is answered with gzip. In the second draft,
  moreover, a q-value that fails to parse gives the weight 0.0 and no error, while
  \<^verbatim>\<open>compress.go\<close> returns the error of \<^verbatim>\<open>ParseFloat\<close>.
\<close>

theorem segment_after_qvalue_resets_weight:
  "parseCoding go_ascii ''gzip;q=0'' = (''gzip'', F64 0, None)
   \<and> parseCoding go_ascii ''gzip;q=-1'' = (''gzip'', F64 0, None)
   \<and> parseCoding go_ascii ''gzip;q=1.5'' = (''gzip'', F64 1, None)
   \<and> parseCoding go_ascii ''gzip;q=0;x'' = (''gzip'', F64 1, None)
   \<and> parseCoding go_ascii ''gzip;q=0;'' = (''gzip'', F64 1, None)
   \<and> parseCoding_p0 go_ascii ''gzip;q=0'' = (''gzip'', F64 0)
   \<and> parseCoding_p0 go_ascii ''gzip;q=0;x'' = (''gzip'', F64 1)
   \<and> parseCoding_p0 go_ascii ''gzip;q=0;'' = (''gzip'', F64 1)
   \<and> accepts go_ascii (request_with ''gzip;q=0'') = Identity
   \<and> accepts go_ascii (request_with ''gzip;q=0;x'') = Gzip
   \<and> accepts_p0 go_ascii (request_with ''gzip;q=0'') = Identity
   \<and> accepts_p0 go_ascii (request_with ''gzip;q=0;x'') = Gzip
   \<and> parseCoding go_ascii ''gzip;q=abc'' = (''gzip'', F64 0, Some ErrSyntax)
   \<and> parseCoding_p0 go_ascii ''gzip;q=abc'' = (''gzip'', F64 0)"
proof -
  have 1: "parseCoding go_ascii ''gzip;q=0'' = (''gzip'', F64 0, None)"
    "parseCoding go_ascii ''gzip;q=-1'' = (''gzip'', F64 0, None)"
    "parseCoding go_ascii ''gzip;q=1.5'' = (''gzip'', F64 1, None)"
    "parseCoding go_ascii ''gzip;q=0;x'' = (''gzip'', F64 1, None)"
    "parseCoding go_ascii ''gzip;q=0;'' = (''gzip'', F64 1, None)"
    by code_simp+
  have 2: "parseCoding_p0 go_ascii ''gzip;q=0'' = (''gzip'', F64 0)"
    "parseCoding_p0 go_ascii ''gzip;q=0;x'' = (''gzip'', F64 1)"
    "parseCoding_p0 go_ascii ''gzip;q=0;'' = (''gzip'', F64 1)"
    by code_simp+
  have 3: "accepts go_ascii (request_with ''gzip;q=0'') = Identity"
    "accepts go_ascii (request_with ''gzip;q=0;x'') = Gzip"
    "accepts_p0 go_ascii (request_with ''gzip;q=0'') = Identity"
    "accepts_p0 go_ascii (request_with ''gzip;q=0;x'') = Gzip"
    by code_simp+
  have 4: "parseCoding go_ascii ''gzip;q=abc'' = (''gzip'', F64 0, Some ErrSyntax)"
    "parseCoding_p0 go_ascii ''gzip;q=abc'' = (''gzip'', F64 0)"
    by code_simp+
  from 1 2 3 4 show ?thesis by simp
qed

text \<open>
  Claim C5: every weight retained in the parsed mapping lies in [0.0, 1.0]. The clamp
  is two ordered comparisons, and both are false for NaN, which \<^verbatim>\<open>ParseFloat\<close>
  returns without error for the string \<^verbatim>\<open>NaN\<close>: both drafts retain NaN as the
  weight of gzip for the header \<^verbatim>\<open>gzip;q=NaN\<close>.
\<close>

theorem NaN_weight_is_retained:
  "fst (parseEncodings go_ascii ''gzip;q=NaN'') ''gzip'' = Some NaN
   \<and> gzip (parseEncodings_p0 go_ascii ''gzip;q=NaN'') = NaN
   \<and> in_unit_interval NaN = False"
  by code_simp

text \<open>
  Claim C9: the selection functions of the two drafts disagree. For the header
  \<^verbatim>\<open>gzip, identity\<close> both identity and gzip have a weight greater than 0;
  \<^verbatim>\<open>accepts\<close> of \<^verbatim>\<open>compress.go\<close>, which tests identity first, returns Identity,
  and \<^verbatim>\<open>accepts\<close> of the second draft, which does not read identity, returns Gzip.
\<close>

theorem drafts_disagree_on_identity:
  "\<exists>r. f64_greater (weight (fst (parseEncodings go_ascii
            (Header_Get (Header r) ''Accept-Encoding''))) ''identity'') (F64 0)
      \<and> f64_greater (weight (fst (parseEncodings go_ascii
            (Header_Get (Header r) ''Accept-Encoding''))) ''gzip'') (F64 0)
      \<and> f64_greater (identity (parseEncodings_p0 go_ascii
            (Header_Get (Header r) ''Accept-Encoding''))) (F64 0)
      \<and> f64_greater (gzip (parseEncodings_p0 go_ascii
            (Header_Get (Header r) ''Accept-Encoding''))) (F64 0)
      \<and> accepts go_ascii r = Identity
      \<and> accepts_p0 go_ascii r = Gzip"
  by (rule exI [of _ "request_with ''gzip, identity''"]) code_simp


section \<open>The claims about the handlers\<close>

subsection \<open>Auxiliary facts\<close>

lemma perform_pools:
  "trace (perform wr x s) = trace s \<and> Gzippers (perform wr x s) = Gzippers s
   \<and> Writers (perform wr x s) = Writers s"
  by (cases x; cases wr)
     (simp_all add: enc_Write_def enc_update_def Let_def split: pool.splits)

lemma perform_all_pools:
  "trace (perform_all wr xs s) = trace s \<and> Gzippers (perform_all wr xs s) = Gzippers s
   \<and> Writers (perform_all wr xs s) = Writers s"
  by (induction xs arbitrary: s) (simp_all add: perform_pools)

lemma perform_all_Direct_enc: "enc_at p a (perform_all Direct xs s) = enc_at p a s"
proof (induction xs arbitrary: s)
  case Nil then show ?case by simp
next
  case (Cons x xs) then show ?case by (cases x) simp_all
qed

lemma negotiated_go_ascii:
  "accepts go_ascii (request_with ''gzip'') = Gzip"
  "accepts_p0 go_ascii (request_with ''gzip'') = Gzip"
  "accepts go_ascii (request_with ''deflate'') = Deflate"
  "accepts_p0 go_ascii (request_with ''deflate'') = Deflate"
  by code_simp+

lemma trace_enc_Close: "trace (enc_Close K p a s) = trace s @ [EvClose p a]"
  by (cases p) (simp_all add: enc_Close_def Let_def log_event_def enc_update_def)

lemma trace_ServeHTTP: "trace (ServeHTTP h wr s) = trace s @ [EvServe]"
  by (simp add: ServeHTTP_def perform_all_pools log_event_def)

lemma Writers_ServeHTTP: "Writers (ServeHTTP h wr s) = Writers s"
  by (simp add: ServeHTTP_def perform_all_pools log_event_def)

lemma trace_enc_Reset: "trace (enc_Reset p a s) = trace s @ [EvReset p a]"
  by (cases p) (simp_all add: enc_Reset_def log_event_def enc_update_def)

lemma Writers_enc_Close: "Writers (enc_Close K p a s) = Writers s"
  by (cases p) (simp_all add: enc_Close_def Let_def log_event_def enc_update_def)

lemma Writers_enc_Reset: "Writers (enc_Reset p a s) = Writers s"
  by (cases p) (simp_all add: enc_Reset_def log_event_def enc_update_def)

lemma crc32_steps:
  "crc32_byte 0xFFFFFFFF 0x31 = 0x7C231048"
  "crc32_byte 0x7C231048 0x32 = 0xB0ACBB32"
  "crc32_byte 0xB0ACBB32 0x33 = 0x77B79C2D"
  "crc32_byte 0x77B79C2D 0x34 = 0x641C1F5C"
  "crc32_byte 0x641C1F5C 0x35 = 0x340AC5E3"
  "crc32_byte 0x340AC5E3 0x36 = 0xF68D2C9E"
  "crc32_byte 0xF68D2C9E 0x37 = 0xAFFC9660"
  "crc32_byte 0xAFFC9660 0x38 = 0x651F2550"
  "crc32_byte 0x651F2550 0x39 = 0x340BC6D9"
  by code_simp+

lemma crc32_check: "crc32 [0x31, 0x32, 0x33, 0x34, 0x35, 0x36, 0x37, 0x38, 0x39] = 0xCBF43926"
  by (simp add: crc32_def crc32_steps)

lemma crc32_hi: "crc32 [0x68, 0x69] = 0xD8932AAC"
  by code_simp

lemma le32_values:
  "le32 0xD8932AAC = [0xAC, 0x2A, 0x93, 0xD8]" "le32 2 = [2, 0, 0, 0]" "le32 0 = [0, 0, 0, 0]"
  by code_simp+

lemma gzip_stream_hi:
  "gzip_stream stored_codec [0x68, 0x69]
     = [0x1F, 0x8B, 0x08, 0, 0, 0, 0, 0, 0, 0xFF,
        0, 0x02, 0, 0xFD, 0xFF, 0x68, 0x69, 0x01, 0, 0, 0xFF, 0xFF,
        0xAC, 0x2A, 0x93, 0xD8, 0x02, 0, 0, 0]"
  by (simp add: gzip_stream_def gzip_header_def stored_codec_def stored_deflate_def le16_def
      crc32_hi le32_values)

lemma le16_decode:
  assumes "n < 65536"
  shows "le16 n = [a, b] \<Longrightarrow> unat a + 256 * unat b = n"
  using assms by (auto simp add: le16_def unat_of_nat)

lemma le16_length: "\<exists>a b. le16 n = [a, b]"
  by (simp add: le16_def)

lemma inflate_stored_block:
  assumes "length chunk \<le> 65535"
      and "and h 6 = 0"
  shows "inflate_stored (h # le16 (length chunk) @ le16 (65535 - length chunk) @ chunk @ rest)
         = (if bit h 0 then Some (chunk, rest)
            else (case inflate_stored rest of None \<Rightarrow> None | Some (d, r) \<Rightarrow> Some (chunk @ d, r)))"
proof -
  obtain a b where 1: "le16 (length chunk) = [a, b]" using le16_length by blast
  obtain c d where 2: "le16 (65535 - length chunk) = [c, d]" using le16_length by blast
  have 3: "unat a + 256 * unat b = length chunk"
    using le16_decode [OF _ 1] assms(1) by simp
  have 4: "unat c + 256 * unat d = 65535 - length chunk"
    using le16_decode [OF _ 2] by simp
  show ?thesis
    using assms by (simp add: 1 2 3 4 split: option.splits)
qed

lemma inflate_stored_blocks:
  "inflate_stored (stored_blocks data @ [0x01, 0x00, 0x00, 0xFF, 0xFF] @ rest) = Some (data, rest)"
proof (induction data rule: stored_blocks.induct)
  case 1
  show ?case by simp
next
  case (2 b bs)
  define chunk where "chunk = take 65535 (b # bs)"
  define more where "more = drop 65535 (b # bs)"
  have l: "length chunk \<le> 65535"
    by (simp add: chunk_def)
  have j: "chunk @ more = b # bs"
    unfolding chunk_def more_def by (rule append_take_drop_id)
  have ih: "inflate_stored (stored_blocks more @ [0x01, 0x00, 0x00, 0xFF, 0xFF] @ rest)
      = Some (more, rest)"
    unfolding more_def by (rule 2) (rule refl)
  have "stored_blocks (b # bs) @ [0x01, 0x00, 0x00, 0xFF, 0xFF] @ rest
      = 0 # le16 (length chunk) @ le16 (65535 - length chunk) @ chunk
          @ (stored_blocks more @ [0x01, 0x00, 0x00, 0xFF, 0xFF] @ rest)"
    by (simp add: Let_def chunk_def more_def)
  then have "inflate_stored (stored_blocks (b # bs) @ [0x01, 0x00, 0x00, 0xFF, 0xFF] @ rest)
      = Some (chunk @ more, rest)"
    by (simp only: inflate_stored_block [OF l, of 0, simplified] ih option.case prod.case)
  then show ?case by (simp only: j)
qed

text \<open>The inflater for stored blocks reads back every stream of the reference codec.\<close>

lemma inflate_stored_deflate:
  "inflate_stored (flate_stream stored_codec data @ rest) = Some (data, rest)"
  using inflate_stored_blocks [of data rest] by (simp add: stored_codec_def stored_deflate_def)

lemma readHeader_gzip_header: "readHeader (gzip_header K @ bs) = Some bs"
  by (simp add: readHeader_def gzip_header_def le32_def)

text \<open>
  With an inflater that reads back the streams of the deflate encoder, the reader
  accepts the member that the gzip encoder writes for any data and returns the data.
\<close>

lemma gunzip_gzip_stream:
  assumes "\<And>rest. inflate (flate_stream K data @ rest) = Some (data, rest)"
  shows "gunzip inflate (gzip_stream K data) = Some data"
  by (subst gunzip.simps) (simp add: gzip_stream_def readHeader_gzip_header assms le32_def)

lemma Handlers_Identity:
  assumes "\<not> sets_field ''Content-Encoding'' (fst h)"
  shows "accepts L r = Identity \<Longrightarrow>
         header (resp (snd (CompressedHandler K L h r s))) ''Content-Encoding''
           = header (resp s) ''Content-Encoding''
         \<and> body (resp (snd (CompressedHandler K L h r s))) = body (resp s) @ written (fst h)
         \<and> fst (CompressedHandler K L h r s) = snd h"
    and "accepts_p0 L r = Identity \<Longrightarrow>
         header (resp (snd (Handle K L h r s'))) ''Content-Encoding''
           = header (resp s') ''Content-Encoding''
         \<and> body (resp (snd (Handle K L h r s'))) = body (resp s') @ written (fst h)
         \<and> fst (Handle K L h r s') = snd h"
  using assms by (simp_all add: CompressedHandler_def Handle_def Let_def Identity_path)

subsection \<open>The claims\<close>

text \<open>
  Claim C6: for every request that carries no Accept-Encoding header, negotiation
  yields the empty mapping and the Identity decision, the response carries no
  Content-Encoding header, and the response body is byte-identical to what the inner
  handler wrote. Stated for both drafts, for an inner handler that does not set the
  field itself and a response that does not carry it beforehand; the library is only
  assumed to trim and lower-case the empty string to the empty string.
\<close>

theorem no_accept_encoding_is_identity:
  assumes "Header r ''Accept-Encoding'' = None"
      and "ToLower L (TrimSpace L []) = []"
      and "\<not> sets_field ''Content-Encoding'' (fst h)"
      and "header (resp s) ''Content-Encoding'' = None"
      and "header (resp s') ''Content-Encoding'' = None"
  shows "fst (parseEncodings L (Header_Get (Header r) ''Accept-Encoding'')) = Map.empty
       \<and> accepts L r = Identity
       \<and> header (resp (snd (CompressedHandler K L h r s))) ''Content-Encoding'' = None
       \<and> body (resp (snd (CompressedHandler K L h r s))) = body (resp s) @ written (fst h)
       \<and> fst (CompressedHandler K L h r s) = snd h
       \<and> parseEncodings_p0 L (Header_Get (Header r) ''Accept-Encoding'') = zero_codings_p0
       \<and> accepts_p0 L r = Identity
       \<and> header (resp (snd (Handle K L h r s'))) ''Content-Encoding'' = None
       \<and> body (resp (snd (Handle K L h r s'))) = body (resp s') @ written (fst h)
       \<and> fst (Handle K L h r s') = snd h"
proof -
  note p = no_header_parse [OF assms(1,2)]
  have a: "accepts L r = Identity"
    by (simp add: accepts_selection p selection_def weight_def f64_greater_def)
  have b: "accepts_p0 L r = Identity"
    by (simp add: accepts_p0_selection p selection_p0_def zero_codings_p0_def f64_greater_def)
  from Handlers_Identity(1) [OF assms(3) a, of K s] Handlers_Identity(2) [OF assms(3) b, of K s']
    assms(4,5) a b p
  show ?thesis by simp
qed

text \<open>
  Witness for C6: a request with an empty header, an inner handler that sets
  Content-Type and writes two chunks, the empty state of either draft.
\<close>

theorem no_accept_encoding_is_identity_witness:
  "Header request_without ''Accept-Encoding'' = None
   \<and> ToLower go_ascii (TrimSpace go_ascii []) = []
   \<and> accepts go_ascii request_without = Identity
   \<and> header (resp (snd (CompressedHandler stored_codec go_ascii
        ([Write [0x68], SetHeader ''Content-Type'' ''text/plain'', Write [0x69]], Returns)
        request_without (empty_world :: tmp world)))) ''Content-Encoding'' = None
   \<and> body (resp (snd (CompressedHandler stored_codec go_ascii
        ([Write [0x68], SetHeader ''Content-Type'' ''text/plain'', Write [0x69]], Returns)
        request_without (empty_world :: tmp world)))) = [0x68, 0x69]
   \<and> body (resp (snd (Handle stored_codec go_ascii
        ([Write [0x68], SetHeader ''Content-Type'' ''text/plain'', Write [0x69]], Returns)
        request_without (empty_world :: addr world)))) = [0x68, 0x69]"
proof -
  let ?h = "([Write [0x68], SetHeader ''Content-Type'' ''text/plain'', Write [0x69]], Returns)"
  have 1: "Header request_without ''Accept-Encoding'' = None"
    by (simp add: request_without_def)
  have 2: "ToLower go_ascii (TrimSpace go_ascii []) = []"
    by (simp add: go_ascii_def ascii_TrimSpace_def ascii_ToLower_def)
  have 3: "\<not> sets_field ''Content-Encoding'' (fst ?h)"
    by simp
  have 4: "header (resp (empty_world :: tmp world)) ''Content-Encoding'' = None"
    by (simp add: empty_world_def empty_response_def)
  have 5: "header (resp (empty_world :: addr world)) ''Content-Encoding'' = None"
    by (simp add: empty_world_def empty_response_def)
  have 6: "body (resp (empty_world :: tmp world)) = []" "body (resp (empty_world :: addr world)) = []"
    by (simp_all add: empty_world_def empty_response_def)
  from no_accept_encoding_is_identity [OF 1 2 3 4 5, of stored_codec] 1 2 6
  show ?thesis by simp
qed


text \<open>
  Claim C7: for every request with header \<^verbatim>\<open>Accept-Encoding: gzip\<close> and every
  byte sequence the inner handler writes, the response carries
  \<^verbatim>\<open>Content-Encoding: gzip\<close> and its body, decompressed with a standard gzip reader,
  equals exactly the bytes the inner handler wrote. In both drafts, and whether the
  inner handler returns or panics, the body is one gzip member: the header that
  \<^verbatim>\<open>gzip.Writer\<close> writes, the deflate stream of the bytes written, their CRC-32 and
  their length. The reader \<open>gunzip\<close> checks the header, passes what follows to the
  inflater and checks the CRC-32 and the length of what the inflater returned against
  the trailer. It is given any inflater that reads back every stream of the deflate
  encoder, whatever follows the stream: this is the one property of \<^verbatim>\<open>compress/flate\<close>
  that the statement rests on. The inner handler is one that does not set
  Content-Encoding itself, and the library is only assumed to trim and lower-case
  \<^verbatim>\<open>gzip\<close> to itself.
\<close>

theorem gzip_round_trip:
  assumes "Header r ''Accept-Encoding'' = Some [''gzip'']"
      and "ToLower L (TrimSpace L ''gzip'') = ''gzip''"
      and "\<not> sets_field ''Content-Encoding'' (fst h)"
      and "body (resp s) = []"
      and "body (resp s') = []"
      and "\<And>data rest. inflate (flate_stream K data @ rest) = Some (data, rest)"
  shows "header (resp (snd (CompressedHandler K L h r s))) ''Content-Encoding'' = Some [''gzip'']
       \<and> body (resp (snd (CompressedHandler K L h r s))) = gzip_stream K (written (fst h))
       \<and> gunzip inflate (body (resp (snd (CompressedHandler K L h r s)))) = Some (written (fst h))
       \<and> header (resp (snd (Handle K L h r s'))) ''Content-Encoding'' = Some [''gzip'']
       \<and> body (resp (snd (Handle K L h r s'))) = gzip_stream K (written (fst h))
       \<and> gunzip inflate (body (resp (snd (Handle K L h r s')))) = Some (written (fst h))"
proof -
  note a = accepts_gzip_header [OF assms(1,2)]
  have g: "gunzip inflate (gzip_stream K (written (fst h))) = Some (written (fst h))"
    by (rule gunzip_gzip_stream) (rule assms(6))
  from CompressedHandler_Gzip(1) [OF a(1), of K h s] CompressedHandler_Gzip(2) [OF a(1) assms(3), of K s]
    Handle_Gzip(1) [OF a(2), of K h s'] Handle_Gzip(2) [OF a(2) assms(3), of K s'] assms(4,5) g
  show ?thesis by simp
qed

text \<open>
  Witness for C7: the reference codec, whose streams the inflater for stored blocks
  reads back for all data. Whatever bytes \<open>data\<close> an inner handler writes after
  setting Content-Type, the reader returns them from the body of either draft. For the
  two chunks \<^verbatim>\<open>h\<close> and \<^verbatim>\<open>i\<close> the body is the 30 bytes of the member, with the
  CRC-32 \<^verbatim>\<open>d8932aac\<close> of \<^verbatim>\<open>hi\<close> in its trailer; and the CRC-32 of the digits
  \<^verbatim>\<open>123456789\<close> is the check value \<^verbatim>\<open>cbf43926\<close> of the standard.
\<close>

theorem gzip_round_trip_witness:
  "Header (request_with ''gzip'') ''Accept-Encoding'' = Some [''gzip'']
   \<and> (\<forall>data rest. inflate_stored (flate_stream stored_codec data @ rest) = Some (data, rest))
   \<and> (\<forall>data. header (resp (snd (CompressedHandler stored_codec go_ascii
        ([SetHeader ''Content-Type'' ''text/plain'', Write data], Returns)
        (request_with ''gzip'') (empty_world :: tmp world)))) ''Content-Encoding'' = Some [''gzip''])
   \<and> (\<forall>data. gunzip inflate_stored (body (resp (snd (CompressedHandler stored_codec go_ascii
        ([SetHeader ''Content-Type'' ''text/plain'', Write data], Returns)
        (request_with ''gzip'') (empty_world :: tmp world))))) = Some data)
   \<and> (\<forall>data. gunzip inflate_stored (body (resp (snd (Handle stored_codec go_ascii
        ([SetHeader ''Content-Type'' ''text/plain'', Write data], Returns)
        (request_with ''gzip'') (empty_world :: addr world))))) = Some data)
   \<and> body (resp (snd (CompressedHandler stored_codec go_ascii
        ([Write [0x68], SetHeader ''Content-Type'' ''text/plain'', Write [0x69]], Returns)
        (request_with ''gzip'') (empty_world :: tmp world))))
      = [0x1F, 0x8B, 0x08, 0, 0, 0, 0, 0, 0, 0xFF,
         0, 0x02, 0, 0xFD, 0xFF, 0x68, 0x69, 0x01, 0, 0, 0xFF, 0xFF,
         0xAC, 0x2A, 0x93, 0xD8, 0x02, 0, 0, 0]
   \<and> gunzip inflate_stored (body (resp (snd (Handle stored_codec go_ascii
        ([Write [0x68], SetHeader ''Content-Type'' ''text/plain'', Write [0x69]], Panics)
        (request_with ''gzip'') (empty_world :: addr world))))) = Some [0x68, 0x69]
   \<and> crc32 [0x31, 0x32, 0x33, 0x34, 0x35, 0x36, 0x37, 0x38, 0x39] = 0xCBF43926"
proof -
  let ?h = "\<lambda>data. ([SetHeader ''Content-Type'' ''text/plain'', Write data], Returns)"
  let ?hi = "\<lambda>out. ([Write [0x68], SetHeader ''Content-Type'' ''text/plain'', Write [0x69]], out)"
  have 1: "Header (request_with ''gzip'') ''Accept-Encoding'' = Some [''gzip'']"
    by (simp add: request_with_def)
  have 2: "ToLower go_ascii (TrimSpace go_ascii ''gzip'') = ''gzip''"
    by code_simp
  have 3: "\<not> sets_field ''Content-Encoding'' (fst (?h data))"
    "\<not> sets_field ''Content-Encoding'' (fst (?hi out))" for data out
    by simp_all
  have 4: "body (resp (empty_world :: tmp world)) = []"
    by (simp add: empty_world_def empty_response_def)
  have 5: "body (resp (empty_world :: addr world)) = []"
    by (simp add: empty_world_def empty_response_def)
  note 6 = inflate_stored_deflate
  have w: "written (fst (?h data)) = data" "written (fst (?hi out)) = [0x68, 0x69]" for data out
    by simp_all
  note a = gzip_round_trip [where inflate = inflate_stored and K = stored_codec, OF 1 2 _ 4 5 6]
  have b: "header (resp (snd (CompressedHandler stored_codec go_ascii (?h data)
        (request_with ''gzip'') (empty_world :: tmp world)))) ''Content-Encoding'' = Some [''gzip'']
      \<and> gunzip inflate_stored (body (resp (snd (CompressedHandler stored_codec go_ascii (?h data)
        (request_with ''gzip'') (empty_world :: tmp world))))) = Some data
      \<and> gunzip inflate_stored (body (resp (snd (Handle stored_codec go_ascii (?h data)
        (request_with ''gzip'') (empty_world :: addr world))))) = Some data" for data
    using a [of "?h data", OF 3(1)] unfolding w by blast
  have c: "body (resp (snd (CompressedHandler stored_codec go_ascii (?hi Returns)
        (request_with ''gzip'') (empty_world :: tmp world)))) = gzip_stream stored_codec [0x68, 0x69]"
    using a [of "?hi Returns", OF 3(2)] unfolding w by blast
  have d: "gunzip inflate_stored (body (resp (snd (Handle stored_codec go_ascii (?hi Panics)
        (request_with ''gzip'') (empty_world :: addr world))))) = Some [0x68, 0x69]"
    using a [of "?hi Panics", OF 3(2)] unfolding w by blast
  from 1 6 b c [unfolded gzip_stream_hi] d crc32_check show ?thesis by blast
qed

text \<open>
  Claim C8: for every compressing response writer whose underlying sink does not
  support the hijack capability, \<^verbatim>\<open>Hijack\<close> returns \<^verbatim>\<open>ErrUnHijackable\<close> (with
  nil connection and nil buffer) and does not crash; if the underlying sink does support
  hijacking, the call is forwarded to it unchanged. Both drafts.
\<close>

theorem Hijack_unhijackable_or_forwarded:
  "(hijacker (resp s) = None \<longrightarrow>
      Hijack p a s = (None, None, Some ErrUnHijackable)
    \<and> Hijack_p0 p a s = (None, None, Some ErrUnHijackable))
   \<and> (hijacker (resp s) = Some hj \<longrightarrow> Hijack p a s = hj \<and> Hijack_p0 p a s = hj)"
  by (simp add: Hijack_def Hijack_p0_def)

text \<open>
  Witness for C8: a response that cannot be hijacked, and one whose \<^verbatim>\<open>Hijack\<close>
  returns a connection and a buffer.
\<close>

theorem Hijack_unhijackable_or_forwarded_witness:
  "hijacker (resp (empty_world :: tmp world)) = None
   \<and> Hijack GzipPool 0 (empty_world :: tmp world) = (None, None, Some ErrUnHijackable)
   \<and> Hijack_p0 GzipPool 0 (empty_world :: tmp world) = (None, None, Some ErrUnHijackable)
   \<and> hijacker (resp ((empty_world :: tmp world)
        \<lparr>resp := empty_response\<lparr>hijacker := Some (Some 1, Some 2, None)\<rparr>\<rparr>))
      = Some (Some 1, Some 2, None)
   \<and> Hijack GzipPool 0 ((empty_world :: tmp world)
        \<lparr>resp := empty_response\<lparr>hijacker := Some (Some 1, Some 2, None)\<rparr>\<rparr>)
      = (Some 1, Some 2, None)
   \<and> Hijack_p0 FlatePool 0 ((empty_world :: tmp world)
        \<lparr>resp := empty_response\<lparr>hijacker := Some (Some 1, Some 2, None)\<rparr>\<rparr>)
      = (Some 1, Some 2, None)"
proof -
  have 1: "hijacker (resp (empty_world :: tmp world)) = None"
    by (simp add: empty_world_def empty_response_def)
  have 2: "hijacker (resp ((empty_world :: tmp world)
        \<lparr>resp := empty_response\<lparr>hijacker := Some (Some 1, Some 2, None)\<rparr>\<rparr>))
      = Some (Some 1, Some 2, None)"
    by simp
  from Hijack_unhijackable_or_forwarded [of "empty_world :: tmp world" GzipPool 0] 1
    Hijack_unhijackable_or_forwarded [of "(empty_world :: tmp world)
        \<lparr>resp := empty_response\<lparr>hijacker := Some (Some 1, Some 2, None)\<rparr>\<rparr>" GzipPool 0
        "(Some 1, Some 2, None)"]
    Hijack_unhijackable_or_forwarded [of "(empty_world :: tmp world)
        \<lparr>resp := empty_response\<lparr>hijacker := Some (Some 1, Some 2, None)\<rparr>\<rparr>" FlatePool 0
        "(Some 1, Some 2, None)"] 2
  show ?thesis by simp
qed

text \<open>
  Claim C10: for every request whose negotiated coding is Gzip and whose inner handler
  writes zero body bytes, the response body is still non-empty: it is exactly the gzip
  encoding of the empty byte sequence, with \<^verbatim>\<open>Content-Encoding: gzip\<close> set. The
  gzip stream of any data ends in the eight bytes of its trailer, so it is never empty.
\<close>

theorem gzip_of_empty_body:
  assumes "written (fst h) = []"
      and "\<not> sets_field ''Content-Encoding'' (fst h)"
      and "body (resp s) = []"
      and "body (resp s') = []"
  shows "(accepts L r = Gzip \<longrightarrow>
            body (resp (snd (CompressedHandler K L h r s))) = gzip_stream K []
          \<and> body (resp (snd (CompressedHandler K L h r s))) \<noteq> []
          \<and> header (resp (snd (CompressedHandler K L h r s))) ''Content-Encoding'' = Some [''gzip''])
       \<and> (accepts_p0 L r = Gzip \<longrightarrow>
            body (resp (snd (Handle K L h r s'))) = gzip_stream K []
          \<and> body (resp (snd (Handle K L h r s'))) \<noteq> []
          \<and> header (resp (snd (Handle K L h r s'))) ''Content-Encoding'' = Some [''gzip''])"
  using assms CompressedHandler_Gzip(1) [of L r K h s] CompressedHandler_Gzip(2) [of L r h K s]
    Handle_Gzip(1) [of L r K h s'] Handle_Gzip(2) [of L r h K s'] gzip_stream_not_Nil [of K "[]"]
  by simp

text \<open>
  Witness for C10: the header \<^verbatim>\<open>gzip\<close>, an inner handler that sets Content-Type and
  writes an empty chunk; with the reference codec the body is the 23 bytes of the gzip
  member of the empty input.
\<close>

theorem gzip_of_empty_body_witness:
  "accepts go_ascii (request_with ''gzip'') = Gzip
   \<and> accepts_p0 go_ascii (request_with ''gzip'') = Gzip
   \<and> written (fst ([SetHeader ''Content-Type'' ''text/plain'', Write []], Returns)) = []
   \<and> body (resp (snd (CompressedHandler stored_codec go_ascii
        ([SetHeader ''Content-Type'' ''text/plain'', Write []], Returns)
        (request_with ''gzip'') (empty_world :: tmp world))))
      = [0x1F, 0x8B, 0x08, 0, 0, 0, 0, 0, 0, 0xFF, 0x01, 0, 0, 0xFF, 0xFF, 0, 0, 0, 0, 0, 0, 0, 0]
   \<and> body (resp (snd (Handle stored_codec go_ascii
        ([SetHeader ''Content-Type'' ''text/plain'', Write []], Returns)
        (request_with ''gzip'') (empty_world :: addr world))))
      = [0x1F, 0x8B, 0x08, 0, 0, 0, 0, 0, 0, 0xFF, 0x01, 0, 0, 0xFF, 0xFF, 0, 0, 0, 0, 0, 0, 0, 0]
   \<and> header (resp (snd (CompressedHandler stored_codec go_ascii
        ([SetHeader ''Content-Type'' ''text/plain'', Write []], Returns)
        (request_with ''gzip'') (empty_world :: tmp world)))) ''Content-Encoding'' = Some [''gzip'']"
proof -
  let ?h = "([SetHeader ''Content-Type'' ''text/plain'', Write []], Returns)"
  have 1: "written (fst ?h) = []"
    by simp
  have 2: "\<not> sets_field ''Content-Encoding'' (fst ?h)"
    by simp
  have 3: "body (resp (empty_world :: tmp world)) = []"
    by (simp add: empty_world_def empty_response_def)
  have 4: "body (resp (empty_world :: addr world)) = []"
    by (simp add: empty_world_def empty_response_def)
  have c: "crc32 [] = 0"
    by code_simp
  have l: "le32 0 = [0, 0, 0, 0]"
    by code_simp
  have g: "gzip_stream stored_codec []
      = [0x1F, 0x8B, 0x08, 0, 0, 0, 0, 0, 0, 0xFF, 0x01, 0, 0, 0xFF, 0xFF, 0, 0, 0, 0, 0, 0, 0, 0]"
    by (simp add: gzip_stream_def gzip_header_def stored_codec_def stored_deflate_def c l)
  from gzip_of_empty_body [OF 1 2 3 4, of go_ascii "request_with ''gzip''" stored_codec]
    negotiated_go_ascii(1,2) g 1
  show ?thesis by simp
qed

text \<open>
  Claim C1: on every exit path from the inner handler the acquired encoder is first
  finalized and only then returned to its pool, and it is always returned. The code
  does otherwise, for every inner handler \<open>h\<close>: the deferred function of the Gzip case
  (both drafts) and of the Deflate case of the second draft puts the encoder into the
  pool first and closes it afterwards, and the Deflate case of \<^verbatim>\<open>compress.go\<close>
  closes the encoder and never puts it back, so that \<^verbatim>\<open>Writers\<close> stays empty.
\<close>

theorem encoder_returned_before_close:
  "trace (snd (CompressedHandler K go_ascii h (request_with ''gzip'') empty_world))
     = [EvReset GzipPool 0, EvServe, EvPut GzipPool 0, EvClose GzipPool 0]
   \<and> trace (snd (Handle K go_ascii h (request_with ''gzip'') empty_world))
     = [EvReset GzipPool 0, EvServe, EvPut GzipPool 0, EvClose GzipPool 0]
   \<and> trace (snd (Handle K go_ascii h (request_with ''deflate'') empty_world))
     = [EvReset FlatePool 0, EvServe, EvPut FlatePool 0, EvClose FlatePool 0]
   \<and> trace (snd (CompressedHandler K go_ascii h (request_with ''deflate'') empty_world))
     = [EvReset FlatePool 0, EvServe, EvClose FlatePool 0]
   \<and> Writers (snd (CompressedHandler K go_ascii h (request_with ''deflate'') empty_world)) = []"
  by (simp add: CompressedHandler_def Handle_def negotiated_go_ascii GetGzip_def GetWriter_def
      GetWriter_p0_def Let_def empty_world_def add_response_header_def set_response_header_def
      Put_Gzippers_def Put_writers_p0_def trace_enc_Close trace_ServeHTTP trace_enc_Reset
      Writers_enc_Close Writers_ServeHTTP Writers_enc_Reset log_event_def)

subsection \<open>The entries of \<^verbatim>\<open>Writers\<close> in \<^verbatim>\<open>compress.go\<close>\<close>

text \<open>
  \<^verbatim>\<open>New\<close> stores a fresh writer and no error, and \<^verbatim>\<open>compress.go\<close> has no call of
  \<^verbatim>\<open>Writers.Put\<close>. From a pool whose entries are all as \<^verbatim>\<open>New\<close> makes them,
  \<^verbatim>\<open>GetWriter\<close> returns a writer and no error, and the handler leaves a pool that
  holds only entries of the pool it found.
\<close>

lemma Writers_GetGzip: "Writers (snd (GetGzip s)) = Writers s"
  by (simp add: GetGzip_def Let_def Writers_enc_Reset split: list.splits)

lemma GetWriter_reports_no_error:
  assumes "list_all (\<lambda>t. tmp_w t \<noteq> None \<and> tmp_e t = None) (Writers s)"
  shows "\<exists>f s1. GetWriter s = Inr (f, None, s1) \<and> set (Writers s1) \<subseteq> set (Writers s)"
proof (cases "Writers s")
  case Nil
  then show ?thesis
    by (simp add: GetWriter_def Let_def Writers_enc_Reset)
next
  case (Cons t rest)
  with assms obtain f where "tmp_w t = Some f" "tmp_e t = None"
    by auto
  with Cons show ?thesis
    by (auto simp add: GetWriter_def Writers_enc_Reset)
qed

lemma CompressedHandler_Writers:
  "set (Writers (snd (CompressedHandler K L h r s))) \<subseteq> set (Writers s)"
proof -
  let ?s = "add_response_header ''Vary'' ''Accept-Encoding'' s"
  have w: "Writers ?s = Writers s"
    by (simp add: add_response_header_def)
  show ?thesis
  proof (cases "accepts L r")
    case Identity
    then show ?thesis
      by (simp add: CompressedHandler_def Writers_ServeHTTP w)
  next
    case Gzip
    obtain g s1 where g: "GetGzip ?s = (g, s1)" by (cases "GetGzip ?s")
    then have "Writers s1 = Writers s"
      using Writers_GetGzip [of ?s] w by simp
    with Gzip g show ?thesis
      by (simp add: CompressedHandler_def Let_def Writers_enc_Close Put_Gzippers_def log_event_def
          Writers_ServeHTTP set_response_header_def)
  next
    case Deflate
    show ?thesis
    proof (cases "Writers s")
      case Nil
      with Deflate w show ?thesis
        by (simp add: CompressedHandler_def GetWriter_def Let_def Writers_enc_Close
            Writers_ServeHTTP Writers_enc_Reset set_response_header_def)
    next
      case (Cons t rest)
      with Deflate w show ?thesis
        by (cases "tmp_w t")
           (auto simp add: CompressedHandler_def GetWriter_def Let_def Writers_enc_Close
            Writers_ServeHTTP Writers_enc_Reset set_response_header_def)
    qed
  qed
qed

end
